theory Spec2Isabelle
  imports Main
begin

section \<open>Values, exceptions and the workflow state\<close>

text \<open>
  Python values that are stored under the type \<^verbatim>\<open>Any\<close> (the metadata bag of the state,
  the dictionary produced by \<^verbatim>\<open>model_dump\<close>, the keyword arguments of
  \<^verbatim>\<open>copy_with_updates\<close>).
\<close>

datatype pyval =
    PStr string
  | PInt int
  | PList "pyval list"
  | PDict "(string \<times> pyval) list"

text \<open>
  What a node function's exception looks like to the engine, which only ever reads
  \<^verbatim>\<open>str(e)\<close>: either the text of an exception raised by the node function itself, or the
  \<^verbatim>\<open>KeyError\<close> of \<^verbatim>\<open>registry.get_node\<close>, which is raised inside the same \<^verbatim>\<open>try\<close>.
\<close>

datatype cause =
    Raised string
  | KeyErrorCause string

text \<open>
  What a node function raises, with its \<^verbatim>\<open>str\<close>: an exception of class \<^verbatim>\<open>Exception\<close>, which
  the clause \<^verbatim>\<open>except Exception\<close> of the engine catches, or an exception outside that class
  (\<^verbatim>\<open>SystemExit\<close>, \<^verbatim>\<open>KeyboardInterrupt\<close>, \<^verbatim>\<open>GeneratorExit\<close>), which it does not catch.
\<close>

datatype raised =
    ExceptionRaised string
  | BaseExceptionRaised string

text \<open>
  The message texts of the engine's exceptions, one constructor per f-string of the
  source:
  \<^item> \<open>EntryNotInNodes e\<close>: \<^verbatim>\<open>Entry point '{e}' not in nodes list\<close>
  \<^item> \<open>EdgeSourceNotInNodes s\<close>: \<^verbatim>\<open>Edge source '{s}' not in nodes list\<close>
  \<^item> \<open>EdgeTargetNotInNodes t\<close>: \<^verbatim>\<open>Edge target '{t}' not in nodes list\<close>
  \<^item> \<open>NodeNotInRegistry n\<close>: \<^verbatim>\<open>Node '{n}' not found in registry\<close>
  \<^item> \<open>NodeAlreadyRegistered n\<close>: \<^verbatim>\<open>Node '{n}' is already registered\<close>
  \<^item> \<open>NodeFailed n c\<close>: \<^verbatim>\<open>Node '{n}' failed: {str(e)}\<close>
  \<^item> \<open>ExceededMaxIterations\<close>: \<^verbatim>\<open>Execution exceeded maximum iterations (1000). Possible
    infinite loop detected.\<close> (synchronous engine)
  \<^item> \<open>ExceededMaxIterationsAsync\<close>: \<^verbatim>\<open>Execution exceeded maximum iterations (1000)\<close>
  \<^item> \<open>AsyncExecutionFailed m\<close>: \<^verbatim>\<open>Async execution failed: {m}\<close>
\<close>

datatype msg =
    EntryNotInNodes string
  | EdgeSourceNotInNodes string
  | EdgeTargetNotInNodes string
  | NodeNotInRegistry string
  | NodeAlreadyRegistered string
  | NodeFailed string cause
  | ExceededMaxIterations
  | ExceededMaxIterationsAsync
  | AsyncExecutionFailed msg

text \<open>
  The exception classes the source raises. \<open>ValidationError f\<close> is pydantic's rejection of
  the value given for field \<open>f\<close>; \<open>TypeError\<close> is what \<^verbatim>\<open>json.dumps\<close> raises for a message
  it cannot serialise; \<open>OtherBaseException t\<close> is an exception outside the class
  \<^verbatim>\<open>Exception\<close>, with \<^verbatim>\<open>str\<close> \<open>t\<close>, as a node function raised it.
\<close>

datatype exn =
    ValueError msg
  | KeyError msg
  | RuntimeError msg
  | ValidationError string
  | TypeError
  | OtherBaseException string

text \<open>The pydantic model \<^verbatim>\<open>WorkflowState\<close> of \<^verbatim>\<open>engine/state.py\<close>, field by field.\<close>

record WorkflowState =
  "text" :: string
  max_length :: int
  chunk_size :: int
  chunks :: "string list"
  chunk_summaries :: "string list"
  merged_summary :: string
  refined_summary :: string
  current_length :: int
  refinement_iterations :: int
  max_refinement_iterations :: int
  execution_metadata :: "(string \<times> pyval) list"

text \<open>A node: a callable from state to state that may raise; \<open>Inl r\<close> is what it raises.\<close>

type_synonym node_func = "WorkflowState \<Rightarrow> raised + WorkflowState"

section \<open>Node registry (\<^verbatim>\<open>engine/registry.py\<close>)\<close>

record NodeRegistry =
  reg_nodes :: "string \<rightharpoonup> node_func"
  reg_tools :: "string \<rightharpoonup> pyval"

definition NodeRegistry_init :: NodeRegistry where
  "NodeRegistry_init = \<lparr>reg_nodes = Map.empty, reg_tools = Map.empty\<rparr>"

text \<open>
  \<^verbatim>\<open>register_node\<close> mutates the registry: the model returns the registry after the call
  together with the exception, if one was raised.
\<close>

definition register_node ::
  "NodeRegistry \<Rightarrow> string \<Rightarrow> node_func \<Rightarrow> NodeRegistry \<times> exn option" where
  "register_node reg name func =
     (case reg_nodes reg name of
        Some _ \<Rightarrow> (reg, Some (ValueError (NodeAlreadyRegistered name)))
      | None \<Rightarrow> (reg\<lparr>reg_nodes := (reg_nodes reg)(name \<mapsto> func)\<rparr>, None))"

definition get_node :: "NodeRegistry \<Rightarrow> string \<Rightarrow> exn + node_func" where
  "get_node reg name =
     (case reg_nodes reg name of
        None \<Rightarrow> Inl (KeyError (NodeNotInRegistry name))
      | Some func \<Rightarrow> Inr func)"

definition has_node :: "NodeRegistry \<Rightarrow> string \<Rightarrow> bool" where
  "has_node reg name = (reg_nodes reg name \<noteq> None)"

section \<open>Graph definition and its validation (\<^verbatim>\<open>engine/graph.py\<close>)\<close>

text \<open>
  \<^verbatim>\<open>edges\<close> is a dictionary; it is kept as the list of its items in iteration order (the
  order in which \<^verbatim>\<open>validate_structure\<close> walks it), and read with \<open>map_of\<close>.
\<close>

record GraphDefinition =
  nodes :: "string list"
  edges :: "(string \<times> string list) list"
  entry_point :: string

definition validate_structure :: "GraphDefinition \<Rightarrow> exn + unit" where
  "validate_structure d =
     (if entry_point d \<notin> set (nodes d) then Inl (ValueError (EntryNotInNodes (entry_point d)))
      else case find (\<lambda>source. source \<notin> set (nodes d)) (map fst (edges d)) of
        Some source \<Rightarrow> Inl (ValueError (EdgeSourceNotInNodes source))
      | None \<Rightarrow>
         (case find (\<lambda>target. target \<notin> set (nodes d)) (concat (map snd (edges d))) of
            Some target \<Rightarrow> Inl (ValueError (EdgeTargetNotInNodes target))
          | None \<Rightarrow> Inr ()))"

record WorkflowGraph =
  "definition" :: GraphDefinition
  registry :: NodeRegistry

text \<open>The constructor \<^verbatim>\<open>WorkflowGraph.__init__\<close>.\<close>

definition WorkflowGraph_init :: "GraphDefinition \<Rightarrow> NodeRegistry \<Rightarrow> exn + WorkflowGraph" where
  "WorkflowGraph_init d reg =
     (case validate_structure d of
        Inl e \<Rightarrow> Inl e
      | Inr _ \<Rightarrow>
         (case find (\<lambda>node_name. \<not> has_node reg node_name) (nodes d) of
            Some node_name \<Rightarrow> Inl (ValueError (NodeNotInRegistry node_name))
          | None \<Rightarrow> Inr \<lparr>definition = d, registry = reg\<rparr>))"

text \<open>
  The taxonomy of the specification: a structural error is a \<^verbatim>\<open>ValueError\<close> about the entry
  point or an edge endpoint; a missing-node error is the \<^verbatim>\<open>ValueError\<close> of the registry
  check in the constructor.
\<close>

fun is_StructuralError :: "exn \<Rightarrow> bool" where
  "is_StructuralError (ValueError (EntryNotInNodes _)) = True"
| "is_StructuralError (ValueError (EdgeSourceNotInNodes _)) = True"
| "is_StructuralError (ValueError (EdgeTargetNotInNodes _)) = True"
| "is_StructuralError _ = False"

fun is_MissingNodeError :: "exn \<Rightarrow> bool" where
  "is_MissingNodeError (ValueError (NodeNotInRegistry _)) = True"
| "is_MissingNodeError _ = False"

section \<open>Successor resolution\<close>

definition handle_loop_condition :: "string list \<Rightarrow> WorkflowState \<Rightarrow> string option" where
  "handle_loop_condition next_nodes state =
     (let should_loop =
            (current_length state > max_length state \<and>
             refinement_iterations state < max_refinement_iterations state)
      in if should_loop
           then (if ''refine_summary'' \<in> set next_nodes then Some ''refine_summary'' else None)
         else None)"

definition get_next_node :: "WorkflowGraph \<Rightarrow> string \<Rightarrow> WorkflowState \<Rightarrow> string option" where
  "get_next_node g current_node state =
     (case map_of (edges (definition g)) current_node of
        None \<Rightarrow> None
      | Some next_nodes \<Rightarrow>
          if next_nodes = [] then None
          else if current_node = ''check_length_loop''
            then handle_loop_condition next_nodes state
          else Some (next_nodes ! 0))"

section \<open>The loop-control node (\<^verbatim>\<open>workflows/summarization/nodes_upgraded.py\<close>)\<close>

definition check_length_loop :: node_func where
  "check_length_loop state =
     (let should_continue =
            (current_length state > max_length state \<and>
             refinement_iterations state < max_refinement_iterations state)
      in Inr state)"

section \<open>The synchronous engine: \<^verbatim>\<open>WorkflowGraph.execute\<close>\<close>

text \<open>
  A log entry. The source also stores the start time and the duration of the node, read
  from the wall clock; they are left out.
\<close>

record LogEntry =
  node :: string
  iteration :: nat

definition max_iterations :: nat where
  "max_iterations = 1000"

text \<open>
  How a call of a node function ended, and the calls of a run in order. The calls are
  bookkeeping of the model: the source keeps no such list.
\<close>

datatype call_end =
    CallReturned
  | CallRaised raised

text \<open>
  A call of \<^verbatim>\<open>execute\<close>. \<open>outcome\<close> is all that the caller receives: the pair of the final
  state and the log, or the exception, which carries no log. \<open>local_log\<close> is the local
  variable \<^verbatim>\<open>execution_log\<close> as it stands when the frame is left; when \<^verbatim>\<open>execute\<close> raises,
  that list is dropped with the frame and no caller sees it. \<open>calls\<close> lists the node
  functions that were called.
\<close>

record Run =
  outcome :: "exn + WorkflowState \<times> LogEntry list"
  local_log :: "LogEntry list"
  calls :: "(string \<times> call_end) list"

text \<open>
  The \<^verbatim>\<open>while\<close> loop of \<^verbatim>\<open>execute\<close>, from the values of its local variables at the loop
  head. The \<^verbatim>\<open>try\<close> around the lookup and the call has the single clause
  \<^verbatim>\<open>except Exception\<close>: the \<^verbatim>\<open>KeyError\<close> of the lookup and an \<^verbatim>\<open>Exception\<close> of the node
  function are raised again as \<^verbatim>\<open>RuntimeError\<close>; an exception outside \<^verbatim>\<open>Exception\<close> leaves
  \<^verbatim>\<open>execute\<close> as it is.
\<close>

function execute_loop ::
  "WorkflowGraph \<Rightarrow> string option \<Rightarrow> WorkflowState \<Rightarrow> LogEntry list
     \<Rightarrow> (string \<times> call_end) list \<Rightarrow> nat \<Rightarrow> Run" where
  "execute_loop g current_node state execution_log invoked iteration_count =
     (case current_node of
        None \<Rightarrow>
          \<lparr>outcome = Inr (state, execution_log), local_log = execution_log, calls = invoked\<rparr>
      | Some cur \<Rightarrow>
          if iteration_count + 1 > max_iterations
            then \<lparr>outcome = Inl (RuntimeError ExceededMaxIterations),
                  local_log = execution_log, calls = invoked\<rparr>
          else
            (case get_node (registry g) cur of
               Inl e \<Rightarrow>
                 \<lparr>outcome = Inl (RuntimeError (NodeFailed cur (KeyErrorCause cur))),
                  local_log = execution_log, calls = invoked\<rparr>
             | Inr node_func \<Rightarrow>
                 (case node_func state of
                    Inl (ExceptionRaised t) \<Rightarrow>
                      \<lparr>outcome = Inl (RuntimeError (NodeFailed cur (Raised t))),
                       local_log = execution_log,
                       calls = invoked @ [(cur, CallRaised (ExceptionRaised t))]\<rparr>
                  | Inl (BaseExceptionRaised t) \<Rightarrow>
                      \<lparr>outcome = Inl (OtherBaseException t),
                       local_log = execution_log,
                       calls = invoked @ [(cur, CallRaised (BaseExceptionRaised t))]\<rparr>
                  | Inr state' \<Rightarrow>
                      execute_loop g (get_next_node g cur state') state'
                        (execution_log @ [\<lparr>node = cur, iteration = iteration_count + 1\<rparr>])
                        (invoked @ [(cur, CallReturned)])
                        (iteration_count + 1))))"
  by pat_completeness auto
termination
  by (relation "measure (\<lambda>(g, c, s, l, i, n). Suc max_iterations - n)") auto

declare execute_loop.simps [simp del]

definition execute :: "WorkflowGraph \<Rightarrow> WorkflowState \<Rightarrow> Run" where
  "execute g initial_state =
     execute_loop g (Some (entry_point (definition g))) initial_state [] [] 0"

text \<open>The log that the caller receives: none when \<^verbatim>\<open>execute\<close> raises.\<close>

definition returned_log :: "Run \<Rightarrow> LogEntry list" where
  "returned_log run = (case outcome run of Inl e \<Rightarrow> [] | Inr (state, execution_log) \<Rightarrow> execution_log)"

text \<open>The exception classes of the specification, as the engine raises them.\<close>

fun is_NodeExecutionError :: "exn \<Rightarrow> string \<Rightarrow> bool" where
  "is_NodeExecutionError (RuntimeError (NodeFailed n c)) name = (n = name)"
| "is_NodeExecutionError _ name = False"

fun is_IterationLimitError :: "exn \<Rightarrow> bool" where
  "is_IterationLimitError (RuntimeError ExceededMaxIterations) = True"
| "is_IterationLimitError (RuntimeError ExceededMaxIterationsAsync) = True"
| "is_IterationLimitError _ = False"

section \<open>Binary floating point, as far as \<^verbatim>\<open>update_progress\<close> uses it\<close>

text \<open>
  \<^verbatim>\<open>update_progress\<close> computes \<^verbatim>\<open>int((completed_nodes / total_nodes) * 100)\<close>: a true
  division of two integers, which Python rounds correctly to the nearest binary64 value,
  a binary64 multiplication by \<^verbatim>\<open>100.0\<close>, rounded again, and a truncation towards zero.
  A non-negative binary64 value is kept as a fraction of two naturals whose denominator
  is a power of two. Rounding is to 53 significant bits, ties to the even significand.
  The exponent is not bounded: overflow and subnormal values are out of the reach of two
  node counts.
\<close>

fun bit_length :: "nat \<Rightarrow> nat" where
  "bit_length n = (if n = 0 then 0 else Suc (bit_length (n div 2)))"

declare bit_length.simps [simp del]

text \<open>The integer nearest to \<open>a / b\<close>, ties going to the even one.\<close>

definition round_half_even :: "nat \<Rightarrow> nat \<Rightarrow> nat" where
  "round_half_even a b =
     (let q = a div b; r = a mod b
      in if 2 * r > b \<or> (2 * r = b \<and> odd q) then q + 1 else q)"

text \<open>
  The binary64 value nearest to \<open>a / b\<close>, for \<open>b > 0\<close>. The quotient is scaled by a power
  of two, \<open>2 ^ s\<close>, that brings it into the interval from \<open>2 ^ 52\<close> (included) to \<open>2 ^ 53\<close>
  (excluded), rounded to an integer there, and scaled back.
\<close>

definition to_double :: "nat \<Rightarrow> nat \<Rightarrow> nat \<times> nat" where
  "to_double a b =
     (if a = 0 then (0, 1)
      else
        let s0 = int (bit_length b) + 53 - int (bit_length a);
            n = (if s0 \<ge> 0 then a * 2 ^ nat s0 else a);
            d0 = (if s0 \<ge> 0 then b else b * 2 ^ nat (- s0));
            d = (if n div d0 \<ge> 2 ^ 53 then 2 * d0 else d0);
            s = (if n div d0 \<ge> 2 ^ 53 then s0 - 1 else s0);
            m = round_half_even n d
        in if s \<ge> 0 then (m, 2 ^ nat s) else (m * 2 ^ nat (- s), 1))"

definition float_truediv :: "nat \<Rightarrow> nat \<Rightarrow> nat \<times> nat" where
  "float_truediv a b = to_double a b"

definition float_mul_int :: "nat \<times> nat \<Rightarrow> nat \<Rightarrow> nat \<times> nat" where
  "float_mul_int x k = to_double (fst x * k) (snd x)"

definition float_trunc :: "nat \<times> nat \<Rightarrow> nat" where
  "float_trunc x = fst x div snd x"

text \<open>
  \<^verbatim>\<open>int((completed_nodes / total_nodes) * 100)\<close> for \<open>total_nodes > 0\<close>; rounding is
  symmetric in the sign and \<^verbatim>\<open>int\<close> truncates towards zero, so a negative
  \<open>c_nodes\<close> gives the negated result of its absolute value.
\<close>

definition percent_of :: "int \<Rightarrow> int \<Rightarrow> int" where
  "percent_of c_nodes t_nodes =
     (let p = int (float_trunc (float_mul_int
                 (float_truediv (nat \<bar>c_nodes\<bar>) (nat t_nodes)) 100))
      in if c_nodes < 0 then - p else p)"

section \<open>Job tracker (\<^verbatim>\<open>engine/job_tracker.py\<close>)\<close>

datatype JobStatus = STARTED | RUNNING | COMPLETED | FAILED

text \<open>
  \<^verbatim>\<open>JobInfo\<close>. The start and end times are read from the wall clock and are left out;
  \<open>error_message\<close> is \<open>None\<close> for the empty string.
\<close>

record JobInfo =
  run_id :: string
  graph_id :: string
  status :: JobStatus
  progress_percent :: int
  last_node :: string
  error_message :: "msg option"
  total_nodes :: int
  completed_nodes :: int

definition JobInfo_init :: "string \<Rightarrow> string \<Rightarrow> JobInfo" where
  "JobInfo_init rid gid =
     \<lparr>run_id = rid, graph_id = gid, status = STARTED, progress_percent = 0,
      last_node = '''', error_message = None, total_nodes = 0, completed_nodes = 0\<rparr>"

definition update_progress :: "JobInfo \<Rightarrow> string \<Rightarrow> int \<Rightarrow> int \<Rightarrow> JobInfo" where
  "update_progress job node_name c_nodes t_nodes =
     job\<lparr>last_node := node_name,
         completed_nodes := c_nodes,
         total_nodes := t_nodes,
         progress_percent := (if t_nodes > 0 then percent_of c_nodes t_nodes else 0),
         status := RUNNING\<rparr>"

definition mark_completed :: "JobInfo \<Rightarrow> JobInfo" where
  "mark_completed job = job\<lparr>status := COMPLETED, progress_percent := 100\<rparr>"

definition mark_failed :: "JobInfo \<Rightarrow> msg \<Rightarrow> JobInfo" where
  "mark_failed job m = job\<lparr>status := FAILED, error_message := Some m\<rparr>"

text \<open>\<^verbatim>\<open>JobTracker.jobs\<close>; every method runs under the tracker's lock, one at a time.\<close>

type_synonym JobTracker = "string \<rightharpoonup> JobInfo"

definition create_job :: "JobTracker \<Rightarrow> string \<Rightarrow> string \<Rightarrow> JobTracker" where
  "create_job jobs rid gid = jobs(rid \<mapsto> JobInfo_init rid gid)"

definition update_job_progress ::
  "JobTracker \<Rightarrow> string \<Rightarrow> string \<Rightarrow> int \<Rightarrow> int \<Rightarrow> JobTracker" where
  "update_job_progress jobs rid node_name c_nodes t_nodes =
     (case jobs rid of
        None \<Rightarrow> jobs
      | Some job \<Rightarrow> jobs(rid \<mapsto> update_progress job node_name c_nodes t_nodes))"

definition mark_job_completed :: "JobTracker \<Rightarrow> string \<Rightarrow> JobTracker" where
  "mark_job_completed jobs rid =
     (case jobs rid of None \<Rightarrow> jobs | Some job \<Rightarrow> jobs(rid \<mapsto> mark_completed job))"

definition mark_job_failed :: "JobTracker \<Rightarrow> string \<Rightarrow> msg \<Rightarrow> JobTracker" where
  "mark_job_failed jobs rid m =
     (case jobs rid of None \<Rightarrow> jobs | Some job \<Rightarrow> jobs(rid \<mapsto> mark_failed job m))"

section \<open>The asynchronous wrapper (\<^verbatim>\<open>engine/async_graph.py\<close>)\<close>

text \<open>
  \<^verbatim>\<open>execute_async\<close> talks to two module-level objects, the job tracker and the WebSocket
  manager. Each awaited call on them is recorded, in order, as one effect; what the call
  does to the tracker is given by \<open>tracker_effect\<close> below. The timestamp of a
  \<^verbatim>\<open>NODE_EXECUTED\<close> event is left out; its state snapshot is the pair of
  \<^verbatim>\<open>current_length\<close> and \<^verbatim>\<open>refinement_iterations\<close>. The \<^verbatim>\<open>asyncio.sleep\<close> after each
  node only yields and is not recorded.
\<close>

datatype effect =
    UpdateJobProgress string string int int
  | MarkJobFailed string msg
  | MarkJobCompleted string
  | SendNodeExecuted string string nat int int
  | SendError string msg
  | SendCompleted string string

text \<open>
  How the body of the outer \<^verbatim>\<open>try\<close> is left when it raises: with a \<^verbatim>\<open>RuntimeError\<close> of the
  wrapper, of which the text is kept, or with an exception outside \<^verbatim>\<open>Exception\<close> that a node
  function raised and that the inner \<^verbatim>\<open>except Exception\<close> did not catch.
\<close>

datatype abort =
    AbortRuntimeError msg
  | AbortBaseException string

text \<open>The code after the \<^verbatim>\<open>while\<close> loop, inside the outer \<^verbatim>\<open>try\<close>.\<close>

definition execute_async_exit ::
  "string \<Rightarrow> string \<Rightarrow> WorkflowState \<Rightarrow> LogEntry list \<Rightarrow> effect list \<Rightarrow> nat
     \<Rightarrow> (abort + WorkflowState) \<times> LogEntry list \<times> effect list" where
  "execute_async_exit rid gid state execution_log effects iteration_count =
     (if iteration_count \<ge> max_iterations
        then (Inl (AbortRuntimeError ExceededMaxIterationsAsync), execution_log,
              effects @ [MarkJobFailed rid ExceededMaxIterationsAsync,
                         SendError gid ExceededMaxIterationsAsync])
      else (Inr state, execution_log,
            effects @ [MarkJobCompleted rid, SendCompleted gid rid]))"

text \<open>
  The \<^verbatim>\<open>while\<close> loop of \<^verbatim>\<open>execute_async\<close> with the code that follows it, from the values of
  the local variables at the loop head.
\<close>

function execute_async_loop ::
  "WorkflowGraph \<Rightarrow> string \<Rightarrow> string \<Rightarrow> string option \<Rightarrow> WorkflowState \<Rightarrow> LogEntry list
     \<Rightarrow> effect list \<Rightarrow> nat \<Rightarrow> (abort + WorkflowState) \<times> LogEntry list \<times> effect list" where
  "execute_async_loop g rid gid current_node state execution_log effects iteration_count =
     (case current_node of
        None \<Rightarrow> execute_async_exit rid gid state execution_log effects iteration_count
      | Some cur \<Rightarrow>
          if \<not> iteration_count < max_iterations
            then execute_async_exit rid gid state execution_log effects iteration_count
          else
            (case get_node (registry g) cur of
               Inl e \<Rightarrow>
                 (Inl (AbortRuntimeError (NodeFailed cur (KeyErrorCause cur))), execution_log,
                  effects @
                    [UpdateJobProgress rid cur (int iteration_count)
                       (int (length (nodes (definition g)))),
                     MarkJobFailed rid (NodeFailed cur (KeyErrorCause cur)),
                     SendError gid (NodeFailed cur (KeyErrorCause cur))])
             | Inr node_func \<Rightarrow>
                 (case node_func state of
                    Inl (ExceptionRaised t) \<Rightarrow>
                      (Inl (AbortRuntimeError (NodeFailed cur (Raised t))), execution_log,
                       effects @
                         [UpdateJobProgress rid cur (int iteration_count)
                            (int (length (nodes (definition g)))),
                          MarkJobFailed rid (NodeFailed cur (Raised t)),
                          SendError gid (NodeFailed cur (Raised t))])
                  | Inl (BaseExceptionRaised t) \<Rightarrow>
                      (Inl (AbortBaseException t), execution_log,
                       effects @
                         [UpdateJobProgress rid cur (int iteration_count)
                            (int (length (nodes (definition g))))])
                  | Inr state' \<Rightarrow>
                      execute_async_loop g rid gid (get_next_node g cur state') state'
                        (execution_log @ [\<lparr>node = cur, iteration = iteration_count + 1\<rparr>])
                        (effects @
                           [UpdateJobProgress rid cur (int iteration_count)
                              (int (length (nodes (definition g)))),
                            SendNodeExecuted gid cur (iteration_count + 1)
                              (current_length state') (refinement_iterations state')])
                        (iteration_count + 1))))"
  by pat_completeness auto
termination
  by (relation "measure (\<lambda>(g, r, gi, c, s, l, e, n). max_iterations - n)") auto

declare execute_async_loop.simps [simp del]

text \<open>
  \<^verbatim>\<open>execute_async\<close>: the first progress report, the loop, and the outer
  \<^verbatim>\<open>except Exception\<close>, which reports the failure a second time under the text
  \<^verbatim>\<open>Async execution failed: ...\<close> and raises the exception again. An exception outside
  \<^verbatim>\<open>Exception\<close> passes this clause too, with nothing reported.
\<close>

definition execute_async ::
  "WorkflowGraph \<Rightarrow> string \<Rightarrow> WorkflowState
     \<Rightarrow> (exn + WorkflowState \<times> LogEntry list) \<times> effect list" where
  "execute_async g rid initial_state =
     (let gid = ''async_execution'' in
      case execute_async_loop g rid gid (Some (entry_point (definition g))) initial_state []
             [UpdateJobProgress rid ''starting'' 0 (int (length (nodes (definition g))))] 0 of
        (Inl (AbortRuntimeError m), execution_log, effects) \<Rightarrow>
          (Inl (RuntimeError m),
           effects @ [MarkJobFailed rid (AsyncExecutionFailed m),
                      SendError gid (AsyncExecutionFailed m)])
      | (Inl (AbortBaseException t), execution_log, effects) \<Rightarrow>
          (Inl (OtherBaseException t), effects)
      | (Inr state, execution_log, effects) \<Rightarrow> (Inr (state, execution_log), effects))"

text \<open>What one recorded call does to the job tracker.\<close>

fun tracker_effect :: "JobTracker \<Rightarrow> effect \<Rightarrow> JobTracker" where
  "tracker_effect jobs (UpdateJobProgress rid node_name c_nodes t_nodes) =
     update_job_progress jobs rid node_name c_nodes t_nodes"
| "tracker_effect jobs (MarkJobFailed rid m) = mark_job_failed jobs rid m"
| "tracker_effect jobs (MarkJobCompleted rid) = mark_job_completed jobs rid"
| "tracker_effect jobs _ = jobs"

fun is_tracker_call :: "effect \<Rightarrow> bool" where
  "is_tracker_call (UpdateJobProgress _ _ _ _) = True"
| "is_tracker_call (MarkJobFailed _ _) = True"
| "is_tracker_call (MarkJobCompleted _) = True"
| "is_tracker_call _ = False"

text \<open>
  The tracker after each of the tracker calls of a run, in order, starting from the
  tracker the run finds.
\<close>

fun tracker_history :: "JobTracker \<Rightarrow> effect list \<Rightarrow> JobTracker list" where
  "tracker_history jobs [] = []"
| "tracker_history jobs (e # es) =
     (if is_tracker_call e
        then tracker_effect jobs e # tracker_history (tracker_effect jobs e) es
      else tracker_history jobs es)"

text \<open>
  A run as \<^verbatim>\<open>/run_async\<close> starts it: the job is created, then \<^verbatim>\<open>execute_async\<close> runs.
  The result lists the progress percentage and the status of the job after each tracker
  call of the run.
\<close>

definition run_progress ::
  "WorkflowGraph \<Rightarrow> string \<Rightarrow> WorkflowState \<Rightarrow> (int \<times> JobStatus) list" where
  "run_progress g rid initial_state =
     map (\<lambda>jobs. case jobs rid of
                   None \<Rightarrow> (0, STARTED)
                 | Some job \<Rightarrow> (progress_percent job, status job))
       (tracker_history (create_job Map.empty rid ''graph'')
          (snd (execute_async g rid initial_state)))"

section \<open>Event broadcaster (\<^verbatim>\<open>engine/websocket_manager.py\<close>)\<close>

text \<open>
  \<^verbatim>\<open>active_connections\<close> maps a graph id to a set of WebSockets. A set is kept as the list
  of its members, without repetition, in the order in which a loop over it visits them.
  The manager's lock is not modelled: a call runs from start to end with no other call
  in between.
\<close>

type_synonym 'ws connections = "string \<rightharpoonup> 'ws list"

definition connect :: "'ws connections \<Rightarrow> 'ws \<Rightarrow> string \<Rightarrow> 'ws connections" where
  "connect conns websocket gid =
     (case conns gid of
        None \<Rightarrow> conns(gid \<mapsto> [websocket])
      | Some subs \<Rightarrow>
          if websocket \<in> set subs then conns else conns(gid \<mapsto> subs @ [websocket]))"

definition disconnect :: "'ws connections \<Rightarrow> 'ws \<Rightarrow> string \<Rightarrow> 'ws connections" where
  "disconnect conns websocket gid =
     (case conns gid of
        None \<Rightarrow> conns
      | Some subs \<Rightarrow>
          if removeAll websocket subs = [] then conns(gid := None)
          else conns(gid \<mapsto> removeAll websocket subs))"



section \<open>State updates (\<^verbatim>\<open>WorkflowState.copy_with_updates\<close>)\<close>

text \<open>\<^verbatim>\<open>model_dump\<close>: the fields of the state as a dictionary.\<close>

definition model_dump :: "WorkflowState \<Rightarrow> (string \<rightharpoonup> pyval)" where
  "model_dump s =
     [''text'' \<mapsto> PStr (text s),
      ''max_length'' \<mapsto> PInt (max_length s),
      ''chunk_size'' \<mapsto> PInt (chunk_size s),
      ''chunks'' \<mapsto> PList (map PStr (chunks s)),
      ''chunk_summaries'' \<mapsto> PList (map PStr (chunk_summaries s)),
      ''merged_summary'' \<mapsto> PStr (merged_summary s),
      ''refined_summary'' \<mapsto> PStr (refined_summary s),
      ''current_length'' \<mapsto> PInt (current_length s),
      ''refinement_iterations'' \<mapsto> PInt (refinement_iterations s),
      ''max_refinement_iterations'' \<mapsto> PInt (max_refinement_iterations s),
      ''execution_metadata'' \<mapsto> PDict (execution_metadata s)]"

text \<open>
  Modelled from the spec: the constructor \<^verbatim>\<open>WorkflowState(**data)\<close> is pydantic's, which is
  not part of the repository; it is written from the field declarations of
  \<^verbatim>\<open>WorkflowState\<close>. A field absent from \<open>data\<close> takes its declared default, a value of the
  declared type is stored as it is, a value of another type is rejected, and keys that
  name no field are ignored. Pydantic's conversions between types are not modelled, and
  of several rejected fields only the first is reported.
\<close>

fun as_str :: "pyval \<Rightarrow> string option" where
  "as_str (PStr s) = Some s"
| "as_str _ = None"

fun as_int :: "pyval \<Rightarrow> int option" where
  "as_int (PInt i) = Some i"
| "as_int _ = None"

fun as_str_list :: "pyval \<Rightarrow> string list option" where
  "as_str_list (PList vs) =
     (if \<forall>v \<in> set vs. as_str v \<noteq> None then Some (map (\<lambda>v. the (as_str v)) vs) else None)"
| "as_str_list _ = None"

fun as_dict :: "pyval \<Rightarrow> (string \<times> pyval) list option" where
  "as_dict (PDict kvs) = Some kvs"
| "as_dict _ = None"

definition field_of ::
  "(string \<rightharpoonup> pyval) \<Rightarrow> string \<Rightarrow> (pyval \<Rightarrow> 'a option) \<Rightarrow> 'a \<Rightarrow> exn + 'a" where
  "field_of data name conv dflt =
     (case data name of
        None \<Rightarrow> Inr dflt
      | Some v \<Rightarrow> (case conv v of None \<Rightarrow> Inl (ValidationError name) | Some x \<Rightarrow> Inr x))"

definition and_then :: "exn + 'a \<Rightarrow> ('a \<Rightarrow> exn + 'b) \<Rightarrow> exn + 'b" where
  "and_then r f = (case r of Inl e \<Rightarrow> Inl e | Inr x \<Rightarrow> f x)"

definition WorkflowState_init :: "(string \<rightharpoonup> pyval) \<Rightarrow> exn + WorkflowState" where
  "WorkflowState_init data =
     and_then (field_of data ''text'' as_str '''') (\<lambda>v1.
     and_then (field_of data ''max_length'' as_int 100) (\<lambda>v2.
     and_then (field_of data ''chunk_size'' as_int 50) (\<lambda>v3.
     and_then (field_of data ''chunks'' as_str_list []) (\<lambda>v4.
     and_then (field_of data ''chunk_summaries'' as_str_list []) (\<lambda>v5.
     and_then (field_of data ''merged_summary'' as_str '''') (\<lambda>v6.
     and_then (field_of data ''refined_summary'' as_str '''') (\<lambda>v7.
     and_then (field_of data ''current_length'' as_int 0) (\<lambda>v8.
     and_then (field_of data ''refinement_iterations'' as_int 0) (\<lambda>v9.
     and_then (field_of data ''max_refinement_iterations'' as_int 5) (\<lambda>v10.
     and_then (field_of data ''execution_metadata'' as_dict []) (\<lambda>v11.
       Inr \<lparr>text = v1, max_length = v2, chunk_size = v3, chunks = v4,
            chunk_summaries = v5, merged_summary = v6, refined_summary = v7,
            current_length = v8, refinement_iterations = v9,
            max_refinement_iterations = v10, execution_metadata = v11\<rparr>)))))))))))"

text \<open>
  \<^verbatim>\<open>copy_with_updates\<close>: dump the state, overwrite the dumped dictionary with the keyword
  arguments, and build a new state from it.
\<close>

definition copy_with_updates ::
  "WorkflowState \<Rightarrow> (string \<rightharpoonup> pyval) \<Rightarrow> exn + WorkflowState" where
  "copy_with_updates s updates =
     (let current_data = model_dump s;
          current_data = current_data ++ updates
      in WorkflowState_init current_data)"

text \<open>
  A set of field updates: for each field of the state, either no update or a value of
  the type of the field. \<open>kwargs\<close> is the keyword-argument dictionary that passes them.
\<close>

record StateUpdates =
  upd_text :: "string option"
  upd_max_length :: "int option"
  upd_chunk_size :: "int option"
  upd_chunks :: "string list option"
  upd_chunk_summaries :: "string list option"
  upd_merged_summary :: "string option"
  upd_refined_summary :: "string option"
  upd_current_length :: "int option"
  upd_refinement_iterations :: "int option"
  upd_max_refinement_iterations :: "int option"
  upd_execution_metadata :: "(string \<times> pyval) list option"

definition kwargs :: "StateUpdates \<Rightarrow> (string \<rightharpoonup> pyval)" where
  "kwargs u = (\<lambda>k.
     if k = ''text'' then map_option PStr (upd_text u)
     else if k = ''max_length'' then map_option PInt (upd_max_length u)
     else if k = ''chunk_size'' then map_option PInt (upd_chunk_size u)
     else if k = ''chunks'' then map_option (\<lambda>xs. PList (map PStr xs)) (upd_chunks u)
     else if k = ''chunk_summaries''
       then map_option (\<lambda>xs. PList (map PStr xs)) (upd_chunk_summaries u)
     else if k = ''merged_summary'' then map_option PStr (upd_merged_summary u)
     else if k = ''refined_summary'' then map_option PStr (upd_refined_summary u)
     else if k = ''current_length'' then map_option PInt (upd_current_length u)
     else if k = ''refinement_iterations'' then map_option PInt (upd_refinement_iterations u)
     else if k = ''max_refinement_iterations''
       then map_option PInt (upd_max_refinement_iterations u)
     else if k = ''execution_metadata'' then map_option PDict (upd_execution_metadata u)
     else None)"

text \<open>The value a field has after the update: the one given, or else the old one.\<close>

definition updated :: "'a option \<Rightarrow> 'a \<Rightarrow> 'a" where
  "updated new old = (case new of None \<Rightarrow> old | Some v \<Rightarrow> v)"

section \<open>Notions used in the proofs\<close>

text \<open>The calls recorded for the nodes of a log: each one returned.\<close>

definition completed_calls :: "LogEntry list \<Rightarrow> (string \<times> call_end) list" where
  "completed_calls l = map (\<lambda>e. (node e, CallReturned)) l"

text \<open>The invariant of the loop of \<^verbatim>\<open>execute\<close> at the loop head.\<close>

definition loop_inv :: "LogEntry list \<Rightarrow> (string \<times> call_end) list \<Rightarrow> nat \<Rightarrow> bool" where
  "loop_inv l i n \<longleftrightarrow>
     i = completed_calls l \<and> map iteration l = [1..<Suc n] \<and> n \<le> max_iterations"

text \<open>What holds of the result of the loop of \<^verbatim>\<open>execute\<close>.\<close>

definition loop_post :: "Run \<Rightarrow> bool" where
  "loop_post run \<longleftrightarrow>
     length (calls run) \<le> max_iterations \<and> length (local_log run) \<le> max_iterations
     \<and> map iteration (local_log run) = [1..<Suc (length (local_log run))]
     \<and> ((\<exists>state. outcome run = Inr (state, local_log run))
            \<and> calls run = completed_calls (local_log run)
         \<or> outcome run = Inl (RuntimeError ExceededMaxIterations)
            \<and> calls run = completed_calls (local_log run)
         \<or> (\<exists>name. outcome run = Inl (RuntimeError (NodeFailed name (KeyErrorCause name))))
            \<and> calls run = completed_calls (local_log run)
         \<or> (\<exists>name t. outcome run = Inl (RuntimeError (NodeFailed name (Raised t)))
               \<and> calls run =
                   completed_calls (local_log run) @ [(name, CallRaised (ExceptionRaised t))])
         \<or> (\<exists>name t. outcome run = Inl (OtherBaseException t)
               \<and> calls run =
                   completed_calls (local_log run)
                     @ [(name, CallRaised (BaseExceptionRaised t))]))"

text \<open>
  The effects with which the body of the outer \<^verbatim>\<open>try\<close> of \<^verbatim>\<open>execute_async\<close> ends, by the way
  it is left.
\<close>

fun exit_effects :: "string \<Rightarrow> string \<Rightarrow> abort + WorkflowState \<Rightarrow> effect list" where
  "exit_effects rid gid (Inr state) = [MarkJobCompleted rid, SendCompleted gid rid]"
| "exit_effects rid gid (Inl (AbortRuntimeError m)) = [MarkJobFailed rid m, SendError gid m]"
| "exit_effects rid gid (Inl (AbortBaseException t)) = []"

text \<open>The effects of an iteration that completes: a progress report and a node event.\<close>

fun is_report :: "effect \<Rightarrow> bool" where
  "is_report (UpdateJobProgress _ _ _ _) = True"
| "is_report (SendNodeExecuted _ _ _ _ _) = True"
| "is_report _ = False"


section \<open>Example inputs\<close>

definition ex_state :: "int \<Rightarrow> int \<Rightarrow> int \<Rightarrow> int \<Rightarrow> WorkflowState" where
  "ex_state cl ml ri mri =
     \<lparr>text = '''', max_length = ml, chunk_size = 50, chunks = [], chunk_summaries = [],
      merged_summary = '''', refined_summary = '''', current_length = cl,
      refinement_iterations = ri, max_refinement_iterations = mri, execution_metadata = []\<rparr>"

definition ex_graph :: "(string \<times> string list) list \<Rightarrow> WorkflowGraph" where
  "ex_graph es =
     \<lparr>definition = \<lparr>nodes = map fst es, edges = es, entry_point = ''a''\<rparr>,
      registry = NodeRegistry_init\<rparr>"

definition ex_fail :: node_func where
  "ex_fail state = Inl (ExceptionRaised ''boom'')"

definition ex_exit :: node_func where
  "ex_exit state = Inl (BaseExceptionRaised ''exit'')"

definition ex_def_dangling :: GraphDefinition where
  "ex_def_dangling = \<lparr>nodes = [''a''], edges = [(''a'', [''b''])], entry_point = ''a''\<rparr>"

definition ex_def_single :: GraphDefinition where
  "ex_def_single = \<lparr>nodes = [''a''], edges = [(''a'', [])], entry_point = ''a''\<rparr>"

definition ex_reg_a :: NodeRegistry where
  "ex_reg_a = NodeRegistry_init\<lparr>reg_nodes := [''a'' \<mapsto> check_length_loop]\<rparr>"

definition ex_bump :: node_func where
  "ex_bump state = Inr (state\<lparr>refinement_iterations := refinement_iterations state + 1\<rparr>)"

text \<open>
  A two-node cycle: \<^verbatim>\<open>refine_summary\<close>, bound to a function that counts the refinement
  rounds, and the loop-control node.
\<close>

definition ex_cycle :: WorkflowGraph where
  "ex_cycle =
     \<lparr>definition =
        \<lparr>nodes = [''refine_summary'', ''check_length_loop''],
         edges = [(''refine_summary'', [''check_length_loop'']),
                  (''check_length_loop'', [''refine_summary''])],
         entry_point = ''refine_summary''\<rparr>,
      registry =
        NodeRegistry_init\<lparr>reg_nodes :=
          [''refine_summary'' \<mapsto> ex_bump, ''check_length_loop'' \<mapsto> check_length_loop]\<rparr>\<rparr>"

text \<open>
  A node that succeeds, followed by a node that raises: an \<^verbatim>\<open>Exception\<close> in the first
  graph, a \<^verbatim>\<open>SystemExit\<close> in the second.
\<close>

definition ex_graph_ab :: WorkflowGraph where
  "ex_graph_ab =
     \<lparr>definition = \<lparr>nodes = [''a'', ''b''], edges = [(''a'', [''b''])], entry_point = ''a''\<rparr>,
      registry =
        NodeRegistry_init\<lparr>reg_nodes := [''a'' \<mapsto> check_length_loop, ''b'' \<mapsto> ex_fail]\<rparr>\<rparr>"

definition ex_graph_ab_exit :: WorkflowGraph where
  "ex_graph_ab_exit =
     \<lparr>definition = \<lparr>nodes = [''a'', ''b''], edges = [(''a'', [''b''])], entry_point = ''a''\<rparr>,
      registry =
        NodeRegistry_init\<lparr>reg_nodes := [''a'' \<mapsto> check_length_loop, ''b'' \<mapsto> ex_exit]\<rparr>\<rparr>"



section \<open>Successor resolution\<close>

text \<open>
  Claim C1. In \<^verbatim>\<open>_get_next_node\<close>: a node with no adjacency entry, or an empty one, has no
  successor (the run ends); a node other than \<^verbatim>\<open>check_length_loop\<close> with a non-empty
  adjacency list continues with the first entry of the list, whatever follows it; the
  node \<^verbatim>\<open>check_length_loop\<close> continues with \<^verbatim>\<open>refine_summary\<close> exactly when that name is in
  its adjacency list, \<^verbatim>\<open>current_length\<close> exceeds \<^verbatim>\<open>max_length\<close> and
  \<^verbatim>\<open>refinement_iterations\<close> is below \<^verbatim>\<open>max_refinement_iterations\<close>, and otherwise has
  no successor, also when its adjacency list is not empty.
\<close>

theorem successor_resolution:
  "(map_of (edges (definition g)) n = None \<or> map_of (edges (definition g)) n = Some []
      \<longrightarrow> get_next_node g n s = None)
   \<and> (n \<noteq> ''check_length_loop'' \<and> map_of (edges (definition g)) n = Some (x # xs)
      \<longrightarrow> get_next_node g n s = Some x)
   \<and> (map_of (edges (definition g)) ''check_length_loop'' = Some ys
      \<longrightarrow> (get_next_node g ''check_length_loop'' s = Some ''refine_summary''
             \<longleftrightarrow> ''refine_summary'' \<in> set ys \<and> current_length s > max_length s
                 \<and> refinement_iterations s < max_refinement_iterations s)
          \<and> (get_next_node g ''check_length_loop'' s \<noteq> Some ''refine_summary''
             \<longrightarrow> get_next_node g ''check_length_loop'' s = None))"
  by (auto simp: get_next_node_def handle_loop_condition_def Let_def)

theorem successor_resolution_witness:
  "get_next_node (ex_graph [(''a'', [])]) ''a'' (ex_state 0 0 0 0) = None
   \<and> get_next_node (ex_graph [(''a'', [''b'', ''c''])]) ''a'' (ex_state 0 0 0 0) = Some ''b''
   \<and> get_next_node (ex_graph [(''check_length_loop'', [''a'', ''refine_summary''])])
        ''check_length_loop'' (ex_state 7 5 1 3) = Some ''refine_summary''
   \<and> get_next_node (ex_graph [(''check_length_loop'', [''a'', ''refine_summary''])])
        ''check_length_loop'' (ex_state 7 5 3 3) = None"
  using successor_resolution [where g = "ex_graph [(''a'', [])]" and n = "''a''"
      and s = "ex_state 0 0 0 0"]
    successor_resolution [where g = "ex_graph [(''a'', [''b'', ''c''])]" and n = "''a''"
      and x = "''b''" and xs = "[''c'']" and s = "ex_state 0 0 0 0"]
    successor_resolution [where g = "ex_graph [(''check_length_loop'', [''a'', ''refine_summary''])]"
      and ys = "[''a'', ''refine_summary'']" and s = "ex_state 7 5 1 3"]
    successor_resolution [where g = "ex_graph [(''check_length_loop'', [''a'', ''refine_summary''])]"
      and ys = "[''a'', ''refine_summary'']" and s = "ex_state 7 5 3 3"]
  by (simp add: ex_graph_def ex_state_def)

section \<open>The registry\<close>

text \<open>
  Claim C7. Registering under a name that is already bound raises the \<^verbatim>\<open>ValueError\<close>
  "already registered" and leaves the registry as it was, so that lookup still returns
  the function bound first; looking up a name that is not bound raises \<^verbatim>\<open>KeyError\<close>; and
  registering under a name that is not bound raises nothing, after which lookup of that
  name returns the function just registered.
\<close>

theorem registry_operations:
  "(reg_nodes reg name = Some f0 \<longrightarrow>
      register_node reg name f = (reg, Some (ValueError (NodeAlreadyRegistered name)))
      \<and> get_node (fst (register_node reg name f)) name = Inr f0)
   \<and> (reg_nodes reg name = None \<longrightarrow>
      get_node reg name = Inl (KeyError (NodeNotInRegistry name))
      \<and> snd (register_node reg name f) = None
      \<and> get_node (fst (register_node reg name f)) name = Inr f)"
  by (simp add: register_node_def get_node_def)

theorem registry_operations_witness:
  "get_node NodeRegistry_init ''a'' = Inl (KeyError (NodeNotInRegistry ''a''))
   \<and> get_node (fst (register_node NodeRegistry_init ''a'' check_length_loop)) ''a''
       = Inr check_length_loop
   \<and> register_node ex_reg_a ''a'' ex_fail
       = (ex_reg_a, Some (ValueError (NodeAlreadyRegistered ''a'')))
   \<and> get_node (fst (register_node ex_reg_a ''a'' ex_fail)) ''a'' = Inr check_length_loop"
proof -
  have fresh: "reg_nodes NodeRegistry_init ''a'' = None"
    by (simp add: NodeRegistry_init_def)
  have bound: "reg_nodes ex_reg_a ''a'' = Some check_length_loop"
    by (simp add: ex_reg_a_def)
  from fresh bound show ?thesis
    using registry_operations [where reg = NodeRegistry_init and name = "''a''"
        and f = check_length_loop]
      registry_operations [where reg = ex_reg_a and name = "''a''" and f = ex_fail
        and ?f0.0 = check_length_loop]
    by blast
qed

section \<open>The loop-control node\<close>

text \<open>
  Claim C10. The node function \<^verbatim>\<open>check_length_loop\<close> returns the state it was given,
  unchanged: the condition it computes is only logged. Whether the loop continues is
  computed again by \<^verbatim>\<open>_handle_loop_condition\<close>, from the same three comparisons on the
  fields of the state.
\<close>

theorem check_length_loop_identity:
  "check_length_loop state = Inr state
   \<and> (handle_loop_condition next_nodes state = Some ''refine_summary'' \<longleftrightarrow>
        ''refine_summary'' \<in> set next_nodes \<and> current_length state > max_length state
          \<and> refinement_iterations state < max_refinement_iterations state)"
  by (auto simp: check_length_loop_def handle_loop_condition_def Let_def)

section \<open>Validation at construction\<close>

lemma find_None_holds: "(find P xs = None) = (\<forall>x\<in>set xs. \<not> P x)"
  by (induction xs) auto

lemma find_Some_holds: "find P xs = Some x \<Longrightarrow> P x \<and> x \<in> set xs"
  by (induction xs) (auto split: if_splits)

lemma validate_structure_Inr:
  "(validate_structure d = Inr ()) \<longleftrightarrow>
     entry_point d \<in> set (nodes d)
     \<and> (\<forall>s \<in> fst ` set (edges d). s \<in> set (nodes d))
     \<and> (\<forall>ts \<in> snd ` set (edges d). \<forall>t \<in> set ts. t \<in> set (nodes d))"
proof -
  have src: "(find (\<lambda>source. source \<notin> set (nodes d)) (map fst (edges d)) = None)
      \<longleftrightarrow> (\<forall>s \<in> fst ` set (edges d). s \<in> set (nodes d))"
    by (simp add: find_None_holds)
  have tgt: "(find (\<lambda>target. target \<notin> set (nodes d)) (concat (map snd (edges d))) = None)
      \<longleftrightarrow> (\<forall>ts \<in> snd ` set (edges d). \<forall>t \<in> set ts. t \<in> set (nodes d))"
    by (simp add: find_None_holds)
  show ?thesis
    unfolding src [symmetric] tgt [symmetric]
    by (simp add: validate_structure_def split: option.splits)
qed

lemma validate_structure_Inl:
  "validate_structure d = Inl e \<Longrightarrow> is_StructuralError e"
  by (auto simp: validate_structure_def split: option.splits if_splits)

text \<open>
  Claim C6. \<^verbatim>\<open>validate_structure\<close> raises exactly when the entry point is not in the node
  list, or the source of some edge is not, or the target of some edge is not; what it
  raises is a structural error, and the constructor of \<^verbatim>\<open>WorkflowGraph\<close> raises the same
  exception. For a definition that passes validation, the constructor raises the
  "not found in registry" error for a declared node without a registry entry whenever
  there is one, and otherwise returns the graph. The constructor calls no node function,
  and \<^verbatim>\<open>execute\<close> needs the graph that the constructor returns.
\<close>

theorem construction_validation:
  "((\<exists>e. validate_structure d = Inl e) \<longleftrightarrow>
      entry_point d \<notin> set (nodes d)
      \<or> (\<exists>s \<in> fst ` set (edges d). s \<notin> set (nodes d))
      \<or> (\<exists>ts \<in> snd ` set (edges d). \<exists>t \<in> set ts. t \<notin> set (nodes d)))
   \<and> (\<forall>e. validate_structure d = Inl e \<longrightarrow>
         is_StructuralError e \<and> WorkflowGraph_init d reg = Inl e)
   \<and> (validate_structure d = Inr () \<and> (\<exists>n \<in> set (nodes d). \<not> has_node reg n) \<longrightarrow>
         (\<exists>n \<in> set (nodes d). \<not> has_node reg n
            \<and> WorkflowGraph_init d reg = Inl (ValueError (NodeNotInRegistry n))))
   \<and> (validate_structure d = Inr () \<and> (\<forall>n \<in> set (nodes d). has_node reg n) \<longrightarrow>
         WorkflowGraph_init d reg = Inr \<lparr>definition = d, registry = reg\<rparr>)"
proof -
  have a: "(\<exists>e. validate_structure d = Inl e) \<longleftrightarrow> validate_structure d \<noteq> Inr ()"
    by (cases "validate_structure d") auto
  have p1: "(\<exists>e. validate_structure d = Inl e) \<longleftrightarrow>
      entry_point d \<notin> set (nodes d)
      \<or> (\<exists>s \<in> fst ` set (edges d). s \<notin> set (nodes d))
      \<or> (\<exists>ts \<in> snd ` set (edges d). \<exists>t \<in> set ts. t \<notin> set (nodes d))"
    unfolding a validate_structure_Inr by blast
  have p2: "\<forall>e. validate_structure d = Inl e \<longrightarrow>
         is_StructuralError e \<and> WorkflowGraph_init d reg = Inl e"
    by (auto dest: validate_structure_Inl simp: WorkflowGraph_init_def)
  have p3: "validate_structure d = Inr () \<and> (\<exists>n \<in> set (nodes d). \<not> has_node reg n) \<longrightarrow>
         (\<exists>n \<in> set (nodes d). \<not> has_node reg n
            \<and> WorkflowGraph_init d reg = Inl (ValueError (NodeNotInRegistry n)))"
  proof
    assume h: "validate_structure d = Inr () \<and> (\<exists>n \<in> set (nodes d). \<not> has_node reg n)"
    then obtain m where m: "find (\<lambda>n. \<not> has_node reg n) (nodes d) = Some m"
      by (cases "find (\<lambda>n. \<not> has_node reg n) (nodes d)") (auto simp: find_None_holds)
    then have "m \<in> set (nodes d) \<and> \<not> has_node reg m"
      by (auto dest: find_Some_holds)
    with h m show "\<exists>n \<in> set (nodes d). \<not> has_node reg n
            \<and> WorkflowGraph_init d reg = Inl (ValueError (NodeNotInRegistry n))"
      by (auto simp: WorkflowGraph_init_def)
  qed
  have p4: "validate_structure d = Inr () \<and> (\<forall>n \<in> set (nodes d). has_node reg n) \<longrightarrow>
         WorkflowGraph_init d reg = Inr \<lparr>definition = d, registry = reg\<rparr>"
    by (auto simp: WorkflowGraph_init_def find_None_holds split: option.splits
          dest!: find_Some_holds)
  from p1 p2 p3 p4 show ?thesis by blast
qed

theorem construction_validation_witness:
  "WorkflowGraph_init ex_def_dangling ex_reg_a = Inl (ValueError (EdgeTargetNotInNodes ''b''))
   \<and> is_StructuralError (ValueError (EdgeTargetNotInNodes ''b''))
   \<and> WorkflowGraph_init ex_def_single NodeRegistry_init = Inl (ValueError (NodeNotInRegistry ''a''))
   \<and> WorkflowGraph_init ex_def_single ex_reg_a
       = Inr \<lparr>definition = ex_def_single, registry = ex_reg_a\<rparr>"
proof -
  have bad: "validate_structure ex_def_dangling = Inl (ValueError (EdgeTargetNotInNodes ''b''))"
    by (simp add: validate_structure_def ex_def_dangling_def)
  have good: "validate_structure ex_def_single = Inr ()"
    by (simp add: validate_structure_def ex_def_single_def)
  have unbound: "\<exists>n \<in> set (nodes ex_def_single). \<not> has_node NodeRegistry_init n"
    by (simp add: ex_def_single_def has_node_def NodeRegistry_init_def)
  have only: "set (nodes ex_def_single) = {''a''}"
    by (simp add: ex_def_single_def)
  have allbound: "\<forall>n \<in> set (nodes ex_def_single). has_node ex_reg_a n"
    by (simp add: ex_def_single_def has_node_def ex_reg_a_def)
  from bad good unbound allbound only show ?thesis
    using construction_validation [where d = ex_def_dangling and reg = ex_reg_a]
      construction_validation [where d = ex_def_single and reg = NodeRegistry_init]
      construction_validation [where d = ex_def_single and reg = ex_reg_a]
    by auto
qed

section \<open>The synchronous engine\<close>

lemma loop_inv_length: "loop_inv l i n \<Longrightarrow> length l = n \<and> length i = n"
proof -
  assume a: "loop_inv l i n"
  then have "length (map iteration l) = length [1..<Suc n]" by (simp add: loop_inv_def)
  then have "length l = n" by simp
  with a show ?thesis by (simp add: loop_inv_def completed_calls_def)
qed

lemma loop_inv_step:
  "loop_inv l i n \<Longrightarrow> n < max_iterations \<Longrightarrow>
   loop_inv (l @ [\<lparr>node = c, iteration = n + 1\<rparr>]) (i @ [(c, CallReturned)]) (n + 1)"
  by (simp add: loop_inv_def completed_calls_def)

lemma completed_calls_returned: "(name, CallRaised r) \<notin> set (completed_calls l)"
  by (auto simp: completed_calls_def)

lemma execute_loop_post:
  "loop_inv l i n \<Longrightarrow> loop_post (execute_loop g c s l i n)"
proof (induction g c s l i n rule: execute_loop.induct)
  case (1 g current_node state execution_log invoked iteration_count)
  note inv = \<open>loop_inv execution_log invoked iteration_count\<close>
  note len = loop_inv_length [OF inv]
  show ?case
  proof (cases current_node)
    case None
    with inv len show ?thesis
      by (simp add: execute_loop.simps loop_post_def loop_inv_def)
  next
    case (Some cur)
    show ?thesis
    proof (cases "iteration_count + 1 > max_iterations")
      case True
      with Some inv len show ?thesis
        by (simp add: execute_loop.simps loop_post_def loop_inv_def)
    next
      case False
      then have lt: "iteration_count < max_iterations" by simp
      show ?thesis
      proof (cases "get_node (registry g) cur")
        case (Inl e)
        with Some False inv len show ?thesis
          by (simp add: execute_loop.simps loop_post_def loop_inv_def)
      next
        case (Inr node_func)
        note found = this
        show ?thesis
        proof (cases "node_func state")
          case (Inl r)
          show ?thesis
          proof (cases r)
            case (ExceptionRaised t)
            with Inl Some False found inv len lt show ?thesis
              by (simp add: execute_loop.simps loop_post_def loop_inv_def)
          next
            case (BaseExceptionRaised t)
            with Inl Some False found inv len lt show ?thesis
              by (simp add: execute_loop.simps loop_post_def loop_inv_def)
          qed
        next
          case (Inr state')
          have "loop_post (execute_loop g (get_next_node g cur state') state'
                  (execution_log @ [\<lparr>node = cur, iteration = iteration_count + 1\<rparr>])
                  (invoked @ [(cur, CallReturned)]) (iteration_count + 1))"
            using "1.IH" [OF Some False found Inr] loop_inv_step [OF inv lt] by simp
          with Some False found Inr show ?thesis
            by (simp add: execute_loop.simps)
        qed
      qed
    qed
  qed
qed

lemma execute_post: "loop_post (execute g s)"
  unfolding execute_def
  by (rule execute_loop_post) (simp add: loop_inv_def completed_calls_def)

text \<open>
  Claim C4. \<^verbatim>\<open>execute\<close> is a total function: its loop is defined by a recursion that
  terminates because the iteration counter grows up to the ceiling. Whatever the graph
  and the initial state, and whether the call returns or raises, it has called at most
  1000 node functions, its local log has at most 1000 entries, and so has the log it
  returns.
\<close>

theorem execute_bounded:
  "length (calls (execute g s)) \<le> 1000 \<and> length (local_log (execute g s)) \<le> 1000
   \<and> length (returned_log (execute g s)) \<le> 1000"
proof -
  have post: "loop_post (execute g s)" by (rule execute_post)
  then have a: "length (calls (execute g s)) \<le> 1000"
    and b: "length (local_log (execute g s)) \<le> 1000"
    by (simp_all add: loop_post_def max_iterations_def)
  have "returned_log (execute g s) = [] \<or> returned_log (execute g s) = local_log (execute g s)"
    using post by (auto simp: loop_post_def returned_log_def)
  with a b show ?thesis by auto
qed

lemma ex_graph_ab_run:
  "execute ex_graph_ab (ex_state 0 0 0 0) =
     \<lparr>outcome = Inl (RuntimeError (NodeFailed ''b'' (Raised ''boom''))),
      local_log = [\<lparr>node = ''a'', iteration = 1\<rparr>],
      calls = [(''a'', CallReturned), (''b'', CallRaised (ExceptionRaised ''boom''))]\<rparr>"
  by (simp add: execute_def execute_loop.simps ex_graph_ab_def ex_fail_def get_node_def
      NodeRegistry_init_def max_iterations_def check_length_loop_def get_next_node_def)

lemma ex_graph_ab_exit_run:
  "execute ex_graph_ab_exit (ex_state 0 0 0 0) =
     \<lparr>outcome = Inl (OtherBaseException ''exit''),
      local_log = [\<lparr>node = ''a'', iteration = 1\<rparr>],
      calls = [(''a'', CallReturned), (''b'', CallRaised (BaseExceptionRaised ''exit''))]\<rparr>"
  by (simp add: execute_def execute_loop.simps ex_graph_ab_exit_def ex_exit_def get_node_def
      NodeRegistry_init_def max_iterations_def check_length_loop_def get_next_node_def)

text \<open>
  Claim C5 as the specification states it does not hold: it speaks of any raise of a node
  function, and of the log that is returned or can be observed. In the graph below the
  second node raises \<^verbatim>\<open>SystemExit\<close>. The call of the node is made and raises, and what
  leaves \<^verbatim>\<open>execute\<close> is that exception itself, not the "node failed" error naming the node:
  the \<^verbatim>\<open>try\<close> of the engine has the clause \<^verbatim>\<open>except Exception\<close> only. Nor is any log
  returned when \<^verbatim>\<open>execute\<close> raises.
\<close>

theorem node_exit_counterexample:
  "calls (execute ex_graph_ab_exit (ex_state 0 0 0 0))
     = [(''a'', CallReturned), (''b'', CallRaised (BaseExceptionRaised ''exit''))]
   \<and> outcome (execute ex_graph_ab_exit (ex_state 0 0 0 0)) = Inl (OtherBaseException ''exit'')
   \<and> \<not> is_NodeExecutionError (OtherBaseException ''exit'') ''b''
   \<and> returned_log (execute ex_graph_ab_exit (ex_state 0 0 0 0)) = []"
  by (simp add: ex_graph_ab_exit_run returned_log_def)

text \<open>
  Claim C5, amended. If a call of a node function raised an exception of class
  \<^verbatim>\<open>Exception\<close> during \<^verbatim>\<open>execute\<close>, then \<^verbatim>\<open>execute\<close> raises the \<^verbatim>\<open>RuntimeError\<close> "node failed"
  that carries the name of this node and the text of its exception; the failing call is
  the last call made; the local list \<^verbatim>\<open>execution_log\<close>, at the moment of the raise, holds
  exactly one entry for each call before it, in the order of the calls, numbered from 1,
  and no entry for the failing node; and the caller receives the exception and no log.
  If the call raised an exception outside \<^verbatim>\<open>Exception\<close>, the same holds except that this
  exception itself leaves \<^verbatim>\<open>execute\<close>, not wrapped.
\<close>

theorem node_exception_aborts:
  "((name, CallRaised (ExceptionRaised t)) \<in> set (calls (execute g s)) \<longrightarrow>
      outcome (execute g s) = Inl (RuntimeError (NodeFailed name (Raised t)))
      \<and> is_NodeExecutionError (RuntimeError (NodeFailed name (Raised t))) name
      \<and> calls (execute g s) =
          map (\<lambda>e. (node e, CallReturned)) (local_log (execute g s))
            @ [(name, CallRaised (ExceptionRaised t))]
      \<and> map iteration (local_log (execute g s)) = [1..<Suc (length (local_log (execute g s)))]
      \<and> returned_log (execute g s) = [])
   \<and> ((name, CallRaised (BaseExceptionRaised t)) \<in> set (calls (execute g s)) \<longrightarrow>
      outcome (execute g s) = Inl (OtherBaseException t)
      \<and> calls (execute g s) =
          map (\<lambda>e. (node e, CallReturned)) (local_log (execute g s))
            @ [(name, CallRaised (BaseExceptionRaised t))]
      \<and> map iteration (local_log (execute g s)) = [1..<Suc (length (local_log (execute g s)))]
      \<and> returned_log (execute g s) = [])"
  using execute_post [of g s] completed_calls_returned [of name _ "local_log (execute g s)"]
  by (auto simp: loop_post_def returned_log_def completed_calls_def)

theorem node_exception_aborts_witness:
  "outcome (execute ex_graph_ab (ex_state 0 0 0 0))
     = Inl (RuntimeError (NodeFailed ''b'' (Raised ''boom'')))
   \<and> calls (execute ex_graph_ab (ex_state 0 0 0 0))
     = map (\<lambda>e. (node e, CallReturned)) (local_log (execute ex_graph_ab (ex_state 0 0 0 0)))
         @ [(''b'', CallRaised (ExceptionRaised ''boom''))]
   \<and> returned_log (execute ex_graph_ab (ex_state 0 0 0 0)) = []
   \<and> outcome (execute ex_graph_ab_exit (ex_state 0 0 0 0)) = Inl (OtherBaseException ''exit'')
   \<and> calls (execute ex_graph_ab_exit (ex_state 0 0 0 0))
     = map (\<lambda>e. (node e, CallReturned))
           (local_log (execute ex_graph_ab_exit (ex_state 0 0 0 0)))
         @ [(''b'', CallRaised (BaseExceptionRaised ''exit''))]"
proof -
  have raised: "(''b'', CallRaised (ExceptionRaised ''boom''))
      \<in> set (calls (execute ex_graph_ab (ex_state 0 0 0 0)))"
    by (simp add: ex_graph_ab_run)
  have left: "(''b'', CallRaised (BaseExceptionRaised ''exit''))
      \<in> set (calls (execute ex_graph_ab_exit (ex_state 0 0 0 0)))"
    by (simp add: ex_graph_ab_exit_run)
  from raised left show ?thesis
    using node_exception_aborts [of "''b''" "''boom''" ex_graph_ab "ex_state 0 0 0 0"]
      node_exception_aborts [of "''b''" "''exit''" ex_graph_ab_exit "ex_state 0 0 0 0"]
    by blast
qed

section \<open>The two-node cycle\<close>

lemma ex_cycle_refine:
  "get_node (registry ex_cycle) ''refine_summary'' = Inr ex_bump"
  by (simp add: ex_cycle_def get_node_def NodeRegistry_init_def)

lemma ex_cycle_check:
  "get_node (registry ex_cycle) ''check_length_loop'' = Inr check_length_loop"
  by (simp add: ex_cycle_def get_node_def NodeRegistry_init_def)

lemma ex_cycle_next_refine:
  "get_next_node ex_cycle ''refine_summary'' s = Some ''check_length_loop''"
  by (simp add: ex_cycle_def get_next_node_def)

lemma ex_cycle_next_check:
  "get_next_node ex_cycle ''check_length_loop'' s =
     (if current_length s > max_length s
         \<and> refinement_iterations s < max_refinement_iterations s
      then Some ''refine_summary'' else None)"
  by (simp add: ex_cycle_def get_next_node_def handle_loop_condition_def)

lemma ex_cycle_nodes: "length (nodes (definition ex_cycle)) = 2"
  by (simp add: ex_cycle_def)

lemma cycle_sync_round:
  assumes "n + 2 \<le> max_iterations"
  shows "execute_loop ex_cycle (Some ''refine_summary'') s l i n =
     execute_loop ex_cycle
       (get_next_node ex_cycle ''check_length_loop''
          (s\<lparr>refinement_iterations := refinement_iterations s + 1\<rparr>))
       (s\<lparr>refinement_iterations := refinement_iterations s + 1\<rparr>)
       (l @ [\<lparr>node = ''refine_summary'', iteration = n + 1\<rparr>,
             \<lparr>node = ''check_length_loop'', iteration = n + 2\<rparr>])
       (i @ [(''refine_summary'', CallReturned), (''check_length_loop'', CallReturned)])
       (n + 2)"
proof -
  have one: "execute_loop ex_cycle (Some ''refine_summary'') s l i n =
      execute_loop ex_cycle (Some ''check_length_loop'')
        (s\<lparr>refinement_iterations := refinement_iterations s + 1\<rparr>)
        (l @ [\<lparr>node = ''refine_summary'', iteration = n + 1\<rparr>])
        (i @ [(''refine_summary'', CallReturned)]) (n + 1)"
    using assms
    by (subst execute_loop.simps)
       (simp add: ex_cycle_refine ex_cycle_next_refine ex_bump_def)
  have two: "execute_loop ex_cycle (Some ''check_length_loop'') s' l' i' (n + 1) =
      execute_loop ex_cycle (get_next_node ex_cycle ''check_length_loop'' s') s'
        (l' @ [\<lparr>node = ''check_length_loop'', iteration = n + 2\<rparr>])
        (i' @ [(''check_length_loop'', CallReturned)]) (n + 2)" for s' l' i'
    using assms
    by (subst execute_loop.simps)
       (simp add: ex_cycle_check check_length_loop_def)
  show ?thesis unfolding one two by simp
qed

lemma cycle_sync:
  "max_refinement_iterations s - refinement_iterations s = int (Suc k) \<Longrightarrow>
   current_length s > max_length s \<Longrightarrow>
   n + 2 * Suc k \<le> max_iterations \<Longrightarrow>
   \<exists>l' i'. execute_loop ex_cycle (Some ''refine_summary'') s l i n =
       \<lparr>outcome = Inr (s\<lparr>refinement_iterations := max_refinement_iterations s\<rparr>, l'),
        local_log = l', calls = i'\<rparr>
     \<and> length l' = length l + 2 * Suc k"
proof (induction k arbitrary: s l i n)
  case 0
  let ?s = "s\<lparr>refinement_iterations := refinement_iterations s + 1\<rparr>"
  from 0 have stop: "get_next_node ex_cycle ''check_length_loop'' ?s = None"
    by (simp add: ex_cycle_next_check)
  from 0 have eq: "?s = s\<lparr>refinement_iterations := max_refinement_iterations s\<rparr>"
    by simp
  from 0 have "n + 2 \<le> max_iterations" by simp
  from cycle_sync_round [OF this] stop eq show ?case
    by (simp add: execute_loop.simps)
next
  case (Suc k)
  let ?s = "s\<lparr>refinement_iterations := refinement_iterations s + 1\<rparr>"
  from Suc.prems have more: "get_next_node ex_cycle ''check_length_loop'' ?s = Some ''refine_summary''"
    by (simp add: ex_cycle_next_check)
  from Suc.prems have le: "n + 2 \<le> max_iterations" by simp
  have a: "max_refinement_iterations ?s - refinement_iterations ?s = int (Suc k)"
    using Suc.prems by simp
  have b: "current_length ?s > max_length ?s" using Suc.prems by simp
  have c: "(n + 2) + 2 * Suc k \<le> max_iterations" using Suc.prems by simp
  let ?l = "l @ [\<lparr>node = ''refine_summary'', iteration = n + 1\<rparr>,
                 \<lparr>node = ''check_length_loop'', iteration = n + 2\<rparr>]"
  let ?i = "i @ [(''refine_summary'', CallReturned), (''check_length_loop'', CallReturned)]"
  from Suc.IH [OF a b c, of ?l ?i] obtain l' i' where
    r: "execute_loop ex_cycle (Some ''refine_summary'') ?s ?l ?i (n + 2) =
          \<lparr>outcome = Inr (?s\<lparr>refinement_iterations := max_refinement_iterations ?s\<rparr>, l'),
           local_log = l', calls = i'\<rparr>"
    and len: "length l' = length ?l + 2 * Suc k"
    by blast
  have "execute_loop ex_cycle (Some ''refine_summary'') s l i n =
      \<lparr>outcome = Inr (s\<lparr>refinement_iterations := max_refinement_iterations s\<rparr>, l'),
       local_log = l', calls = i'\<rparr>"
    using cycle_sync_round [OF le, of s l i] more r by simp
  with len show ?case by simp
qed

lemma cycle_async_round:
  assumes "n + 2 \<le> max_iterations"
  shows "execute_async_loop ex_cycle rid gid (Some ''refine_summary'') s l es n =
     execute_async_loop ex_cycle rid gid
       (get_next_node ex_cycle ''check_length_loop''
          (s\<lparr>refinement_iterations := refinement_iterations s + 1\<rparr>))
       (s\<lparr>refinement_iterations := refinement_iterations s + 1\<rparr>)
       (l @ [\<lparr>node = ''refine_summary'', iteration = n + 1\<rparr>,
             \<lparr>node = ''check_length_loop'', iteration = n + 2\<rparr>])
       (es @ [UpdateJobProgress rid ''refine_summary'' (int n) 2,
              SendNodeExecuted gid ''refine_summary'' (n + 1) (current_length s)
                (refinement_iterations s + 1),
              UpdateJobProgress rid ''check_length_loop'' (int (n + 1)) 2,
              SendNodeExecuted gid ''check_length_loop'' (n + 2) (current_length s)
                (refinement_iterations s + 1)])
       (n + 2)"
proof -
  have one: "execute_async_loop ex_cycle rid gid (Some ''refine_summary'') s l es n =
      execute_async_loop ex_cycle rid gid (Some ''check_length_loop'')
        (s\<lparr>refinement_iterations := refinement_iterations s + 1\<rparr>)
        (l @ [\<lparr>node = ''refine_summary'', iteration = n + 1\<rparr>])
        (es @ [UpdateJobProgress rid ''refine_summary'' (int n) 2,
               SendNodeExecuted gid ''refine_summary'' (n + 1) (current_length s)
                 (refinement_iterations s + 1)])
        (n + 1)"
    using assms
    by (subst execute_async_loop.simps)
       (simp add: ex_cycle_refine ex_cycle_next_refine ex_bump_def ex_cycle_nodes)
  have two: "execute_async_loop ex_cycle rid gid (Some ''check_length_loop'') s' l' es' (n + 1) =
      execute_async_loop ex_cycle rid gid (get_next_node ex_cycle ''check_length_loop'' s') s'
        (l' @ [\<lparr>node = ''check_length_loop'', iteration = n + 2\<rparr>])
        (es' @ [UpdateJobProgress rid ''check_length_loop'' (int (n + 1)) 2,
                SendNodeExecuted gid ''check_length_loop'' (n + 2) (current_length s')
                  (refinement_iterations s')])
        (n + 2)" for s' l' es'
    using assms
    by (subst execute_async_loop.simps)
       (simp add: ex_cycle_check check_length_loop_def ex_cycle_nodes)
  show ?thesis unfolding one two by simp
qed

lemma cycle_async:
  "max_refinement_iterations s - refinement_iterations s = int (Suc k) \<Longrightarrow>
   current_length s > max_length s \<Longrightarrow>
   n + 2 * Suc k = max_iterations \<Longrightarrow>
   \<exists>l' es'. execute_async_loop ex_cycle rid gid (Some ''refine_summary'') s l es n =
       (Inl (AbortRuntimeError ExceededMaxIterationsAsync), l',
        es @ es' @ [MarkJobFailed rid ExceededMaxIterationsAsync,
                    SendError gid ExceededMaxIterationsAsync])
     \<and> (\<forall>e \<in> set es'. is_report e)"
proof (induction k arbitrary: s l es n)
  case 0
  let ?s = "s\<lparr>refinement_iterations := refinement_iterations s + 1\<rparr>"
  from 0 have stop: "get_next_node ex_cycle ''check_length_loop'' ?s = None"
    by (simp add: ex_cycle_next_check)
  from 0 have le: "n + 2 \<le> max_iterations" and top: "n + 2 = max_iterations" by simp_all
  from cycle_async_round [OF le, of rid gid s l es] stop top show ?case
    by (simp add: execute_async_loop.simps execute_async_exit_def)
next
  case (Suc k)
  let ?s = "s\<lparr>refinement_iterations := refinement_iterations s + 1\<rparr>"
  let ?l = "l @ [\<lparr>node = ''refine_summary'', iteration = n + 1\<rparr>,
                 \<lparr>node = ''check_length_loop'', iteration = n + 2\<rparr>]"
  let ?new = "[UpdateJobProgress rid ''refine_summary'' (int n) 2,
              SendNodeExecuted gid ''refine_summary'' (n + 1) (current_length s)
                (refinement_iterations s + 1),
              UpdateJobProgress rid ''check_length_loop'' (int (n + 1)) 2,
              SendNodeExecuted gid ''check_length_loop'' (n + 2) (current_length s)
                (refinement_iterations s + 1)]"
  from Suc.prems have more:
    "get_next_node ex_cycle ''check_length_loop'' ?s = Some ''refine_summary''"
    by (simp add: ex_cycle_next_check)
  from Suc.prems have le: "n + 2 \<le> max_iterations" by simp
  have a: "max_refinement_iterations ?s - refinement_iterations ?s = int (Suc k)"
    using Suc.prems by simp
  have b: "current_length ?s > max_length ?s" using Suc.prems by simp
  have c: "(n + 2) + 2 * Suc k = max_iterations" using Suc.prems by simp
  from Suc.IH [OF a b c, of ?l "es @ ?new"] obtain l' es' where
    r: "execute_async_loop ex_cycle rid gid (Some ''refine_summary'') ?s ?l (es @ ?new) (n + 2) =
          (Inl (AbortRuntimeError ExceededMaxIterationsAsync), l',
           (es @ ?new) @ es' @ [MarkJobFailed rid ExceededMaxIterationsAsync,
                    SendError gid ExceededMaxIterationsAsync])"
    and rep: "\<forall>e \<in> set es'. is_report e"
    by blast
  have "execute_async_loop ex_cycle rid gid (Some ''refine_summary'') s l es n =
      (Inl (AbortRuntimeError ExceededMaxIterationsAsync), l',
        es @ (?new @ es') @ [MarkJobFailed rid ExceededMaxIterationsAsync,
                    SendError gid ExceededMaxIterationsAsync])"
    using cycle_async_round [OF le, of rid gid s l es] more r by simp
  moreover have "\<forall>e \<in> set (?new @ es'). is_report e" using rep by simp
  ultimately show ?case by blast
qed

section \<open>The job tracker along a run\<close>

lemma tracker_history_append:
  "tracker_history jobs (xs @ ys) =
     tracker_history jobs xs @ tracker_history (foldl tracker_effect jobs xs) ys"
proof (induction xs arbitrary: jobs)
  case Nil
  show ?case by simp
next
  case (Cons x xs)
  show ?case by (cases x) (simp_all add: Cons.IH)
qed

lemma tracker_effect_keeps: "jobs rid \<noteq> None \<Longrightarrow> tracker_effect jobs e rid \<noteq> None"
  by (cases e)
     (auto simp: update_job_progress_def mark_job_failed_def mark_job_completed_def
           split: option.splits)

lemma tracker_run_keeps: "jobs rid \<noteq> None \<Longrightarrow> foldl tracker_effect jobs es rid \<noteq> None"
proof (induction es arbitrary: jobs)
  case Nil
  then show ?case by simp
next
  case (Cons e es)
  from Cons.prems have "tracker_effect jobs e rid \<noteq> None"
    by (rule tracker_effect_keeps)
  then have "foldl tracker_effect (tracker_effect jobs e) es rid \<noteq> None"
    by (rule Cons.IH [of "tracker_effect jobs e"])
  then show ?case by simp
qed

lemma async_loop_shape:
  "execute_async_loop g rid gid c s l es n = (r, l', es') \<Longrightarrow>
   \<exists>mid. (\<forall>e \<in> set mid. is_report e) \<and> es' = es @ mid @ exit_effects rid gid r"
proof (induction g rid gid c s l es n rule: execute_async_loop.induct)
  case (1 g rid gid current_node state execution_log effects iteration_count)
  note run = "1.prems"
  have exit_shape: "execute_async_exit rid gid state execution_log effects iteration_count
      = (r, l', es') \<Longrightarrow> ?case"
    by (auto simp: execute_async_exit_def split: if_splits intro: exI [of _ "[]"])
  show ?case
  proof (cases current_node)
    case None
    with run exit_shape show ?thesis by (simp add: execute_async_loop.simps)
  next
    case (Some cur)
    show ?thesis
    proof (cases "iteration_count < max_iterations")
      case False
      with Some run exit_shape show ?thesis by (simp add: execute_async_loop.simps)
    next
      case True
      let ?up = "UpdateJobProgress rid cur (int iteration_count)
                   (int (length (nodes (definition g))))"
      show ?thesis
      proof (cases "get_node (registry g) cur")
        case (Inl e)
        with Some True run
        have "r = Inl (AbortRuntimeError (NodeFailed cur (KeyErrorCause cur)))"
          and "es' = effects @ [?up] @ [MarkJobFailed rid (NodeFailed cur (KeyErrorCause cur)),
                 SendError gid (NodeFailed cur (KeyErrorCause cur))]"
          by (simp_all add: execute_async_loop.simps)
        then show ?thesis by (intro exI [of _ "[?up]"]) simp
      next
        case (Inr node_func)
        note found = this
        show ?thesis
        proof (cases "node_func state")
          case (Inl what)
          show ?thesis
          proof (cases what)
            case (ExceptionRaised t)
            with Inl Some True found run
            have "r = Inl (AbortRuntimeError (NodeFailed cur (Raised t)))"
              and "es' = effects @ [?up] @ [MarkJobFailed rid (NodeFailed cur (Raised t)),
                     SendError gid (NodeFailed cur (Raised t))]"
              by (simp_all add: execute_async_loop.simps)
            then show ?thesis by (intro exI [of _ "[?up]"]) simp
          next
            case (BaseExceptionRaised t)
            with Inl Some True found run
            have "r = Inl (AbortBaseException t)" and "es' = effects @ [?up] @ []"
              by (simp_all add: execute_async_loop.simps)
            then show ?thesis by (intro exI [of _ "[?up]"]) simp
          qed
        next
          case (Inr state')
          let ?ev = "SendNodeExecuted gid cur (iteration_count + 1)
                       (current_length state') (refinement_iterations state')"
          from Some True found Inr run have
            "execute_async_loop g rid gid (get_next_node g cur state') state'
               (execution_log @ [\<lparr>node = cur, iteration = iteration_count + 1\<rparr>])
               (effects @ [?up, ?ev]) (iteration_count + 1) = (r, l', es')"
            by (simp add: execute_async_loop.simps)
          from "1.IH" [OF Some _ found Inr this] True obtain mid where
            m: "\<forall>e \<in> set mid. is_report e" and
            e: "es' = (effects @ [?up, ?ev]) @ mid @ exit_effects rid gid r"
            by auto
          show ?thesis
            by (intro exI [of _ "[?up, ?ev] @ mid"]) (use m e in simp)
        qed
      qed
    qed
  qed
qed

lemma failed_run_status:
  assumes "fst (execute_async g rid s) = Inl (RuntimeError m)"
  shows "snd (last (run_progress g rid s)) = FAILED"
proof -
  let ?gid = "''async_execution''"
  let ?start = "[UpdateJobProgress rid ''starting'' 0 (int (length (nodes (definition g))))]"
  obtain r l es where
    loop: "execute_async_loop g rid ?gid (Some (entry_point (definition g))) s [] ?start 0
             = (r, l, es)"
    by (cases "execute_async_loop g rid ?gid (Some (entry_point (definition g))) s [] ?start 0")
  have r: "r = Inl (AbortRuntimeError m)"
  proof (cases r)
    case (Inl a)
    with assms loop show ?thesis
      by (cases a) (simp_all add: execute_async_def)
  next
    case (Inr st)
    with assms loop show ?thesis by (simp add: execute_async_def)
  qed
  let ?jobs = "create_job Map.empty rid ''graph''"
  have present: "foldl tracker_effect ?jobs es rid \<noteq> None"
    by (rule tracker_run_keeps) (simp add: create_job_def)
  have effs: "snd (execute_async g rid s) =
      es @ [MarkJobFailed rid (AsyncExecutionFailed m), SendError ?gid (AsyncExecutionFailed m)]"
    using loop r by (simp add: execute_async_def)
  have "tracker_history ?jobs (snd (execute_async g rid s)) =
      tracker_history ?jobs es
        @ [mark_job_failed (foldl tracker_effect ?jobs es) rid (AsyncExecutionFailed m)]"
    unfolding effs by (simp add: tracker_history_append)
  with present show ?thesis
    by (auto simp: run_progress_def mark_job_failed_def mark_failed_def)
qed

lemma completed_run_status:
  assumes "fst (execute_async g rid s) = Inr out"
  shows "last (run_progress g rid s) = (100, COMPLETED)"
proof -
  let ?gid = "''async_execution''"
  let ?start = "[UpdateJobProgress rid ''starting'' 0 (int (length (nodes (definition g))))]"
  obtain r l es where
    loop: "execute_async_loop g rid ?gid (Some (entry_point (definition g))) s [] ?start 0
             = (r, l, es)"
    by (cases "execute_async_loop g rid ?gid (Some (entry_point (definition g))) s [] ?start 0")
  have "\<exists>st. r = Inr st"
  proof (cases r)
    case (Inl a)
    with assms loop show ?thesis
      by (cases a) (simp_all add: execute_async_def)
  next
    case (Inr st)
    then show ?thesis by simp
  qed
  then obtain st where r: "r = Inr st" ..
  from async_loop_shape [OF loop] r obtain mid where
    es: "es = (?start @ mid) @ [MarkJobCompleted rid, SendCompleted ?gid rid]"
    by auto
  let ?jobs = "create_job Map.empty rid ''graph''"
  have present: "foldl tracker_effect ?jobs (?start @ mid) rid \<noteq> None"
    by (rule tracker_run_keeps) (simp add: create_job_def)
  have effs: "snd (execute_async g rid s) = es"
    using loop r by (simp add: execute_async_def)
  have "tracker_history ?jobs (snd (execute_async g rid s)) =
      tracker_history ?jobs (?start @ mid)
        @ [mark_job_completed (foldl tracker_effect ?jobs (?start @ mid)) rid]"
    unfolding effs es by (simp only: tracker_history_append) simp
  with present show ?thesis
    by (auto simp: run_progress_def mark_job_completed_def mark_completed_def)
qed


section \<open>Evaluation of the asynchronous wrapper\<close>

lemma ex_state_bump:
  "(ex_state cl ml ri mri)\<lparr>refinement_iterations := x\<rparr> = ex_state cl ml x mri"
  by (simp add: ex_state_def)

lemma ex_state_sel:
  "current_length (ex_state cl ml ri mri) = cl"
  "max_length (ex_state cl ml ri mri) = ml"
  "refinement_iterations (ex_state cl ml ri mri) = ri"
  "max_refinement_iterations (ex_state cl ml ri mri) = mri"
  by (simp_all add: ex_state_def)

text \<open>
  Claim C3, at a run that ends normally with its 1000th node. On the two-node cycle with
  500 refinement rounds allowed, \<^verbatim>\<open>execute\<close> returns the final state with a log of 1000
  entries: the successor of the 1000th node is absent, so the run ends within the
  ceiling. On the same input \<^verbatim>\<open>execute_async\<close> leaves its loop with the counter at 1000,
  takes the test \<^verbatim>\<open>iteration_count >= max_iterations\<close> for an overrun, marks the job
  failed, publishes the error event, and raises; it neither marks the job completed nor
  publishes the completion event, and the status of the job ends as \<^verbatim>\<open>FAILED\<close>.
\<close>

theorem async_ceiling_off_by_one:
  "outcome (execute ex_cycle (ex_state 1 0 0 500))
     = Inr (ex_state 1 0 500 500, local_log (execute ex_cycle (ex_state 1 0 0 500)))
   \<and> length (local_log (execute ex_cycle (ex_state 1 0 0 500))) = 1000
   \<and> length (returned_log (execute ex_cycle (ex_state 1 0 0 500))) = 1000
   \<and> fst (execute_async ex_cycle ''run'' (ex_state 1 0 0 500))
        = Inl (RuntimeError ExceededMaxIterationsAsync)
   \<and> MarkJobFailed ''run'' ExceededMaxIterationsAsync
        \<in> set (snd (execute_async ex_cycle ''run'' (ex_state 1 0 0 500)))
   \<and> MarkJobCompleted ''run'' \<notin> set (snd (execute_async ex_cycle ''run'' (ex_state 1 0 0 500)))
   \<and> SendCompleted ''async_execution'' ''run''
        \<notin> set (snd (execute_async ex_cycle ''run'' (ex_state 1 0 0 500)))
   \<and> snd (last (run_progress ex_cycle ''run'' (ex_state 1 0 0 500))) = FAILED"
proof -
  let ?s = "ex_state 1 0 0 500"
  have gap: "max_refinement_iterations ?s - refinement_iterations ?s = int (Suc 499)"
    by (simp add: ex_state_sel)
  have longer: "current_length ?s > max_length ?s"
    by (simp add: ex_state_sel)
  have fits: "0 + 2 * Suc 499 \<le> max_iterations" and exact: "0 + 2 * Suc 499 = max_iterations"
    by (simp_all add: max_iterations_def)
  have entry: "entry_point (definition ex_cycle) = ''refine_summary''"
    by (simp add: ex_cycle_def)
  from cycle_sync [OF gap longer fits, of "[]" "[]"] obtain l' i' where
    sync: "execute ex_cycle ?s =
      \<lparr>outcome = Inr (ex_state 1 0 500 500, l'), local_log = l', calls = i'\<rparr>"
    and len: "length l' = 1000"
    by (auto simp: execute_def entry ex_state_bump ex_state_sel)
  let ?start = "[UpdateJobProgress ''run'' ''starting'' 0
                   (int (length (nodes (definition ex_cycle))))]"
  from cycle_async [OF gap longer exact, of "''run''" "''async_execution''" "[]" ?start]
  obtain l'' es' where
    loop: "execute_async_loop ex_cycle ''run'' ''async_execution'' (Some ''refine_summary'')
             ?s [] ?start 0 =
           (Inl (AbortRuntimeError ExceededMaxIterationsAsync), l'',
            ?start @ es' @ [MarkJobFailed ''run'' ExceededMaxIterationsAsync,
                            SendError ''async_execution'' ExceededMaxIterationsAsync])"
    and rep: "\<forall>e \<in> set es'. is_report e"
    by blast
  have res: "execute_async ex_cycle ''run'' ?s =
      (Inl (RuntimeError ExceededMaxIterationsAsync),
       ?start @ es' @ [MarkJobFailed ''run'' ExceededMaxIterationsAsync,
                       SendError ''async_execution'' ExceededMaxIterationsAsync,
                       MarkJobFailed ''run'' (AsyncExecutionFailed ExceededMaxIterationsAsync),
                       SendError ''async_execution''
                         (AsyncExecutionFailed ExceededMaxIterationsAsync)])"
    using loop by (simp add: execute_async_def entry Let_def)
  have no_c: "MarkJobCompleted ''run'' \<notin> set es'"
    and no_s: "SendCompleted ''async_execution'' ''run'' \<notin> set es'"
    using rep by auto
  have failed: "snd (last (run_progress ex_cycle ''run'' ?s)) = FAILED"
    by (rule failed_run_status [of _ _ _ ExceededMaxIterationsAsync]) (simp add: res)
  from sync len res no_c no_s failed show ?thesis by (simp add: returned_log_def)
qed

lemmas percent_of_unfold =
  percent_of_def float_trunc_def float_mul_int_def float_truediv_def to_double_def
  round_half_even_def Let_def

lemma percent_of_zero: "percent_of 0 t = 0"
  by (simp add: percent_of_def float_trunc_def float_mul_int_def float_truediv_def
      to_double_def)

lemma percent_of_values:
  "percent_of 1 2 = 50" "percent_of 2 2 = 100" "percent_of 3 2 = 150" "percent_of 23 5 = 459"
  by (simp_all add: percent_of_unfold bit_length.simps)

text \<open>
  Claim C2, at a run on a cycle. \<^verbatim>\<open>execute_async\<close> reports the number of iterations done
  as the number of completed nodes and the length of the node list as the total. On the
  two-node cycle with two refinement rounds the percentage goes 0, 0, 50, 100, 150 and
  then, at \<^verbatim>\<open>mark_completed\<close>, back to 100: it leaves the range 0 to 100 and it decreases.
  The percentage itself is computed in binary floating point and truncated: for 23
  completed of 5 it is 459, where the floor of 100 * 23 / 5 is 460.
\<close>

theorem progress_percent_overshoots:
  "run_progress ex_cycle ''run'' (ex_state 1 0 0 2) =
     [(0, RUNNING), (0, RUNNING), (50, RUNNING), (100, RUNNING), (150, RUNNING),
      (100, COMPLETED)]
   \<and> progress_percent (update_progress (JobInfo_init ''run'' ''graph'') ''n'' 23 5) = 459
   \<and> (100 * 23) div 5 = (460 :: int)"
proof -
  let ?s = "ex_state 1 0 0 2"
  have entry: "entry_point (definition ex_cycle) = ''refine_summary''"
    by (simp add: ex_cycle_def)
  have le0: "0 + 2 \<le> max_iterations" and le2: "2 + 2 \<le> max_iterations"
    by (simp_all add: max_iterations_def)
  let ?gid = "''async_execution''"
  let ?e0 = "[UpdateJobProgress ''run'' ''starting'' 0 2]"
  let ?l1 = "[\<lparr>node = ''refine_summary'', iteration = 1\<rparr>,
              \<lparr>node = ''check_length_loop'', iteration = 2\<rparr>]"
  let ?e1 = "?e0 @ [UpdateJobProgress ''run'' ''refine_summary'' 0 2,
      SendNodeExecuted ?gid ''refine_summary'' 1 1 1,
      UpdateJobProgress ''run'' ''check_length_loop'' 1 2,
      SendNodeExecuted ?gid ''check_length_loop'' 2 1 1]"
  let ?l2 = "?l1 @ [\<lparr>node = ''refine_summary'', iteration = 3\<rparr>,
              \<lparr>node = ''check_length_loop'', iteration = 4\<rparr>]"
  let ?e2 = "?e1 @ [UpdateJobProgress ''run'' ''refine_summary'' 2 2,
      SendNodeExecuted ?gid ''refine_summary'' 3 1 2,
      UpdateJobProgress ''run'' ''check_length_loop'' 3 2,
      SendNodeExecuted ?gid ''check_length_loop'' 4 1 2]"
  have r1: "execute_async_loop ex_cycle ''run'' ?gid (Some ''refine_summary'') ?s [] ?e0 0 =
      execute_async_loop ex_cycle ''run'' ?gid (Some ''refine_summary'') (ex_state 1 0 1 2)
        ?l1 ?e1 2"
    using cycle_async_round [OF le0, of "''run''" ?gid ?s "[]" ?e0]
    by (simp add: ex_state_bump ex_state_sel ex_cycle_next_check eval_nat_numeral)
  have r2: "execute_async_loop ex_cycle ''run'' ?gid (Some ''refine_summary'')
        (ex_state 1 0 1 2) ?l1 ?e1 2 =
      execute_async_loop ex_cycle ''run'' ?gid None (ex_state 1 0 2 2) ?l2 ?e2 4"
    using cycle_async_round [OF le2, of "''run''" ?gid "ex_state 1 0 1 2" ?l1 ?e1]
    by (simp add: ex_state_bump ex_state_sel ex_cycle_next_check eval_nat_numeral)
  have r3: "execute_async_loop ex_cycle ''run'' ?gid None (ex_state 1 0 2 2) ?l2 ?e2 4 =
      (Inr (ex_state 1 0 2 2), ?l2,
       ?e2 @ [MarkJobCompleted ''run'', SendCompleted ?gid ''run''])"
    by (simp add: execute_async_loop.simps execute_async_exit_def max_iterations_def)
  have effs: "snd (execute_async ex_cycle ''run'' ?s) =
      ?e2 @ [MarkJobCompleted ''run'', SendCompleted ?gid ''run'']"
    unfolding execute_async_def entry Let_def ex_cycle_nodes
    using r1 r2 r3 by simp
  have hist: "run_progress ex_cycle ''run'' ?s =
     [(0, RUNNING), (0, RUNNING), (50, RUNNING), (100, RUNNING), (150, RUNNING),
      (100, COMPLETED)]"
    unfolding run_progress_def effs
    by (simp add: create_job_def JobInfo_init_def update_job_progress_def update_progress_def
        mark_job_completed_def mark_completed_def percent_of_values percent_of_zero)
  have one: "progress_percent (update_progress (JobInfo_init ''run'' ''graph'') ''n'' 23 5) = 459"
    by (simp add: update_progress_def percent_of_values)
  from hist one show ?thesis by simp
qed

section \<open>A run that reaches the ceiling of the synchronous engine\<close>

lemma cycle_sync_overrun:
  "max_refinement_iterations s - refinement_iterations s > int j \<Longrightarrow>
   current_length s > max_length s \<Longrightarrow>
   n + 2 * j = max_iterations \<Longrightarrow>
   \<exists>l' i'. execute_loop ex_cycle (Some ''refine_summary'') s l i n =
       \<lparr>outcome = Inl (RuntimeError ExceededMaxIterations), local_log = l', calls = i'\<rparr>
     \<and> length i' = length i + 2 * j"
proof (induction j arbitrary: s l i n)
  case 0
  then show ?case by (simp add: execute_loop.simps)
next
  case (Suc j)
  let ?s = "s\<lparr>refinement_iterations := refinement_iterations s + 1\<rparr>"
  let ?l = "l @ [\<lparr>node = ''refine_summary'', iteration = n + 1\<rparr>,
                 \<lparr>node = ''check_length_loop'', iteration = n + 2\<rparr>]"
  let ?i = "i @ [(''refine_summary'', CallReturned), (''check_length_loop'', CallReturned)]"
  from Suc.prems have more:
    "get_next_node ex_cycle ''check_length_loop'' ?s = Some ''refine_summary''"
    by (simp add: ex_cycle_next_check)
  from Suc.prems have le: "n + 2 \<le> max_iterations" by simp
  have a: "max_refinement_iterations ?s - refinement_iterations ?s > int j"
    using Suc.prems by simp
  have b: "current_length ?s > max_length ?s" using Suc.prems by simp
  have c: "(n + 2) + 2 * j = max_iterations" using Suc.prems by simp
  from Suc.IH [OF a b c, of ?l ?i] obtain l' i' where
    r: "execute_loop ex_cycle (Some ''refine_summary'') ?s ?l ?i (n + 2) =
          \<lparr>outcome = Inl (RuntimeError ExceededMaxIterations), local_log = l', calls = i'\<rparr>"
    and len: "length i' = length ?i + 2 * j"
    by blast
  have "execute_loop ex_cycle (Some ''refine_summary'') s l i n =
      \<lparr>outcome = Inl (RuntimeError ExceededMaxIterations), local_log = l', calls = i'\<rparr>"
    using cycle_sync_round [OF le, of s l i] more r by simp
  with len show ?case by simp
qed

text \<open>
  The ceiling is reached by a run: with 501 refinement rounds allowed, the two-node cycle
  needs 1002 iterations, and \<^verbatim>\<open>execute\<close> raises the iteration-limit error after 1000 calls.
\<close>

lemma execute_iteration_limit_reached:
  "outcome (execute ex_cycle (ex_state 1 0 0 501)) = Inl (RuntimeError ExceededMaxIterations)
   \<and> length (calls (execute ex_cycle (ex_state 1 0 0 501))) = 1000"
proof -
  let ?s = "ex_state 1 0 0 501"
  have gap: "max_refinement_iterations ?s - refinement_iterations ?s > int 500"
    by (simp add: ex_state_sel)
  have longer: "current_length ?s > max_length ?s"
    by (simp add: ex_state_sel)
  have exact: "0 + 2 * 500 = max_iterations"
    by (simp add: max_iterations_def)
  have entry: "entry_point (definition ex_cycle) = ''refine_summary''"
    by (simp add: ex_cycle_def)
  from cycle_sync_overrun [OF gap longer exact, of "[]" "[]"] show ?thesis
    by (auto simp: execute_def entry)
qed

section \<open>The event broadcaster\<close>





section \<open>State updates\<close>

lemma as_str_list_strings: "as_str_list (PList (map PStr xs)) = Some xs"
  by (simp add: map_idI)

lemma and_then_Inr: "and_then (Inr x) f = f x"
  by (simp add: and_then_def)

lemma dumped_text:
  "(model_dump s ++ kwargs u) ''text'' = Some (PStr (updated (upd_text u) (text s)))"
  by (cases "upd_text u") (simp_all add: map_add_def model_dump_def kwargs_def updated_def)

lemma dumped_max_length:
  "(model_dump s ++ kwargs u) ''max_length''
     = Some (PInt (updated (upd_max_length u) (max_length s)))"
  by (cases "upd_max_length u")
     (simp_all add: map_add_def model_dump_def kwargs_def updated_def)

lemma dumped_chunk_size:
  "(model_dump s ++ kwargs u) ''chunk_size''
     = Some (PInt (updated (upd_chunk_size u) (chunk_size s)))"
  by (cases "upd_chunk_size u")
     (simp_all add: map_add_def model_dump_def kwargs_def updated_def)

lemma dumped_chunks:
  "(model_dump s ++ kwargs u) ''chunks''
     = Some (PList (map PStr (updated (upd_chunks u) (chunks s))))"
  by (cases "upd_chunks u")
     (simp_all add: map_add_def model_dump_def kwargs_def updated_def)

lemma dumped_chunk_summaries:
  "(model_dump s ++ kwargs u) ''chunk_summaries''
     = Some (PList (map PStr (updated (upd_chunk_summaries u) (chunk_summaries s))))"
  by (cases "upd_chunk_summaries u")
     (simp_all add: map_add_def model_dump_def kwargs_def updated_def)

lemma dumped_merged_summary:
  "(model_dump s ++ kwargs u) ''merged_summary''
     = Some (PStr (updated (upd_merged_summary u) (merged_summary s)))"
  by (cases "upd_merged_summary u")
     (simp_all add: map_add_def model_dump_def kwargs_def updated_def)

lemma dumped_refined_summary:
  "(model_dump s ++ kwargs u) ''refined_summary''
     = Some (PStr (updated (upd_refined_summary u) (refined_summary s)))"
  by (cases "upd_refined_summary u")
     (simp_all add: map_add_def model_dump_def kwargs_def updated_def)

lemma dumped_current_length:
  "(model_dump s ++ kwargs u) ''current_length''
     = Some (PInt (updated (upd_current_length u) (current_length s)))"
  by (cases "upd_current_length u")
     (simp_all add: map_add_def model_dump_def kwargs_def updated_def)

lemma dumped_refinement_iterations:
  "(model_dump s ++ kwargs u) ''refinement_iterations''
     = Some (PInt (updated (upd_refinement_iterations u) (refinement_iterations s)))"
  by (cases "upd_refinement_iterations u")
     (simp_all add: map_add_def model_dump_def kwargs_def updated_def)

lemma dumped_max_refinement_iterations:
  "(model_dump s ++ kwargs u) ''max_refinement_iterations''
     = Some (PInt (updated (upd_max_refinement_iterations u) (max_refinement_iterations s)))"
  by (cases "upd_max_refinement_iterations u")
     (simp_all add: map_add_def model_dump_def kwargs_def updated_def)

lemma dumped_execution_metadata:
  "(model_dump s ++ kwargs u) ''execution_metadata''
     = Some (PDict (updated (upd_execution_metadata u) (execution_metadata s)))"
  by (cases "upd_execution_metadata u")
     (simp_all add: map_add_def model_dump_def kwargs_def updated_def)

lemma field_text:
  "field_of (model_dump s ++ kwargs u) ''text'' as_str dflt
     = Inr (updated (upd_text u) (text s))"
  by (simp only: field_of_def dumped_text option.case as_str.simps)

lemma field_max_length:
  "field_of (model_dump s ++ kwargs u) ''max_length'' as_int dflt
     = Inr (updated (upd_max_length u) (max_length s))"
  by (simp only: field_of_def dumped_max_length option.case as_int.simps)

lemma field_chunk_size:
  "field_of (model_dump s ++ kwargs u) ''chunk_size'' as_int dflt
     = Inr (updated (upd_chunk_size u) (chunk_size s))"
  by (simp only: field_of_def dumped_chunk_size option.case as_int.simps)

lemma field_chunks:
  "field_of (model_dump s ++ kwargs u) ''chunks'' as_str_list dflt
     = Inr (updated (upd_chunks u) (chunks s))"
  by (simp only: field_of_def dumped_chunks option.case as_str_list_strings)

lemma field_chunk_summaries:
  "field_of (model_dump s ++ kwargs u) ''chunk_summaries'' as_str_list dflt
     = Inr (updated (upd_chunk_summaries u) (chunk_summaries s))"
  by (simp only: field_of_def dumped_chunk_summaries option.case as_str_list_strings)

lemma field_merged_summary:
  "field_of (model_dump s ++ kwargs u) ''merged_summary'' as_str dflt
     = Inr (updated (upd_merged_summary u) (merged_summary s))"
  by (simp only: field_of_def dumped_merged_summary option.case as_str.simps)

lemma field_refined_summary:
  "field_of (model_dump s ++ kwargs u) ''refined_summary'' as_str dflt
     = Inr (updated (upd_refined_summary u) (refined_summary s))"
  by (simp only: field_of_def dumped_refined_summary option.case as_str.simps)

lemma field_current_length:
  "field_of (model_dump s ++ kwargs u) ''current_length'' as_int dflt
     = Inr (updated (upd_current_length u) (current_length s))"
  by (simp only: field_of_def dumped_current_length option.case as_int.simps)

lemma field_refinement_iterations:
  "field_of (model_dump s ++ kwargs u) ''refinement_iterations'' as_int dflt
     = Inr (updated (upd_refinement_iterations u) (refinement_iterations s))"
  by (simp only: field_of_def dumped_refinement_iterations option.case as_int.simps)

lemma field_max_refinement_iterations:
  "field_of (model_dump s ++ kwargs u) ''max_refinement_iterations'' as_int dflt
     = Inr (updated (upd_max_refinement_iterations u) (max_refinement_iterations s))"
  by (simp only: field_of_def dumped_max_refinement_iterations option.case as_int.simps)

lemma field_execution_metadata:
  "field_of (model_dump s ++ kwargs u) ''execution_metadata'' as_dict dflt
     = Inr (updated (upd_execution_metadata u) (execution_metadata s))"
  by (simp only: field_of_def dumped_execution_metadata option.case as_dict.simps)

text \<open>
  Claim C9. For every state and every set of field updates, \<^verbatim>\<open>copy_with_updates\<close> returns
  a state in which each field named by the updates has the value given for it and every
  other field has the value it has in the original state. The function builds a new state
  from a dump of the original one and writes to nothing: the original state is an
  argument that the result does not replace.
\<close>

theorem copy_with_updates_frame:
  "copy_with_updates s (kwargs u) =
     Inr \<lparr>text = updated (upd_text u) (text s),
          max_length = updated (upd_max_length u) (max_length s),
          chunk_size = updated (upd_chunk_size u) (chunk_size s),
          chunks = updated (upd_chunks u) (chunks s),
          chunk_summaries = updated (upd_chunk_summaries u) (chunk_summaries s),
          merged_summary = updated (upd_merged_summary u) (merged_summary s),
          refined_summary = updated (upd_refined_summary u) (refined_summary s),
          current_length = updated (upd_current_length u) (current_length s),
          refinement_iterations =
            updated (upd_refinement_iterations u) (refinement_iterations s),
          max_refinement_iterations =
            updated (upd_max_refinement_iterations u) (max_refinement_iterations s),
          execution_metadata = updated (upd_execution_metadata u) (execution_metadata s)\<rparr>"
  unfolding copy_with_updates_def Let_def WorkflowState_init_def
  by (simp only: field_text field_max_length field_chunk_size field_chunks field_chunk_summaries field_merged_summary field_refined_summary field_current_length field_refinement_iterations field_max_refinement_iterations field_execution_metadata and_then_Inr)

end
